theory Spec2Isabelle
  imports Complex_Main
begin

section \<open>Smart Pantry: the inventory and its derived views (src/app.js)\<close>

text \<open>
  The program keeps one mutable array \<open>inventory\<close> of item objects
  \<open>{ id, name, quantity, expirationDate, barcode, regular }\<close>, mirrors it into
  \<open>localStorage\<close> after every mutation, and derives three views from it (soon to
  expire, restock, recipe suggestions).

  Modelling conventions.
  \<^item> A JavaScript string is a \<open>string\<close>: the list of the bytes of its UTF-8
    encoding.
  \<^item> \<open>quantity\<close> is an \<open>int\<close>: the add form stores \<open>parseInt(..., 10) || 0\<close> and the
    handlers only subtract 1, so the Number is a finite double with an integer value.
    Arithmetic on it rounds as IEEE 754 binary64 does (\<open>toDouble\<close> below).
  \<^item> \<open>null\<close> is \<open>None\<close>.
  \<^item> The array is a list; an object mutated in place through the reference that
    \<open>Array.prototype.find\<close> returned is the update of the first list element that
    satisfies the predicate.
\<close>

subsection \<open>Data\<close>

record item =
  item_id :: string
  name :: string
  quantity :: int
  expirationDate :: "string option"
  barcode :: "string option"
  regular :: bool

type_synonym inventory = "item list"

subsection \<open>Numbers\<close>

text \<open>
  A JavaScript Number is an IEEE 754 double. Every integer of magnitude up to \<open>2 ^ 53\<close>
  is a double; a larger one is rounded to the nearest integer with a 53-bit
  significand, ties to the even significand. \<open>bitLength m\<close> is the number of binary
  digits of a positive \<open>m\<close>.
\<close>

function bitLength :: "int \<Rightarrow> nat" where
  "bitLength n = (if n \<le> 0 then 0 else Suc (bitLength (n div 2)))"
  by pat_completeness auto
termination by (relation "measure nat") auto

declare bitLength.simps [simp del]

text \<open>
  Rounding of a positive integer with more than 53 binary digits: \<open>e\<close> low digits are
  dropped, and the kept significand \<open>q\<close> goes up by one when the dropped part \<open>r\<close> is
  more than half a unit, or exactly half a unit with \<open>q\<close> odd.
\<close>

definition roundSignificand :: "int \<Rightarrow> int" where
  "roundSignificand m =
     (let e = bitLength m - 53; q = m div 2 ^ e; r = m mod 2 ^ e; h = 2 ^ (e - 1)
      in (if h < r \<or> (r = h \<and> odd q) then q + 1 else q) * 2 ^ e)"

text \<open>
  The double nearest to the integer \<open>n\<close>. (At \<open>2 ^ 1024\<close> and beyond the result is not
  a finite double: see \<open>numberOf\<close>.)
\<close>

definition toDouble :: "int \<Rightarrow> int" where
  "toDouble n =
     (if \<bar>n\<bar> \<le> 2 ^ 53 then n
      else if 0 \<le> n then roundSignificand n else - roundSignificand (- n))"

subsection \<open>Array.prototype.find and mutation through the found reference\<close>

text \<open>\<open>xs.find(p)\<close>: the first element satisfying \<open>p\<close>, or \<open>undefined\<close> (\<open>None\<close>).\<close>

fun find_first :: "('a \<Rightarrow> bool) \<Rightarrow> 'a list \<Rightarrow> 'a option" where
  "find_first p [] = None"
| "find_first p (x # xs) = (if p x then Some x else find_first p xs)"

text \<open>The position of the element that \<open>xs.find(p)\<close> returns.\<close>

fun find_pos :: "('a \<Rightarrow> bool) \<Rightarrow> 'a list \<Rightarrow> nat option" where
  "find_pos p [] = None"
| "find_pos p (x # xs) =
     (if p x then Some 0 else (case find_pos p xs of None \<Rightarrow> None | Some i \<Rightarrow> Some (Suc i)))"

text \<open>
  \<open>const it = xs.find(p); if (it) { mutate it }\<close>: the array afterwards. The object is
  shared with the array, so the first element satisfying \<open>p\<close> is replaced by its
  mutated version and nothing else changes.
\<close>

fun mutate_found :: "('a \<Rightarrow> bool) \<Rightarrow> ('a \<Rightarrow> 'a) \<Rightarrow> 'a list \<Rightarrow> 'a list" where
  "mutate_found p f [] = []"
| "mutate_found p f (x # xs) = (if p x then f x # xs else x # mutate_found p f xs)"

text \<open>
  \<open>if (item.quantity > 0) item.quantity -= 1;\<close> The subtraction is the double one: the
  stored result is the double nearest to \<open>quantity - 1\<close>.
\<close>

definition decrement :: "item \<Rightarrow> item" where
  "decrement it =
     (if quantity it > 0 then it\<lparr>quantity := toDouble (quantity it - 1)\<rparr> else it)"

subsection \<open>Restock classification (getRestockItems, lines 179 to 181)\<close>

definition getRestockItems :: "inventory \<Rightarrow> item list" where
  "getRestockItems stock = filter (\<lambda>it. regular it \<and> quantity it \<le> 0) stock"

subsection \<open>Use and delete handlers (lines 430 to 449)\<close>

text \<open>
  The use button carries the item's id. The handler looks the item up by id; when it is
  found, the quantity is decremented if positive (and the inventory is saved).
\<close>

definition useItem :: "string \<Rightarrow> inventory \<Rightarrow> inventory" where
  "useItem i stock = mutate_found (\<lambda>itm. item_id itm = i) decrement stock"

text \<open>\<open>inventory = inventory.filter((itm) => itm.id !== id)\<close>\<close>

definition deleteItem :: "string \<Rightarrow> inventory \<Rightarrow> inventory" where
  "deleteItem i stock = filter (\<lambda>itm. item_id itm \<noteq> i) stock"

subsection \<open>String.prototype.toLowerCase\<close>

text \<open>
  Names are compared after \<open>toLowerCase()\<close>. On the bytes of a string this maps the
  letters A to Z to a to z and leaves every other byte as it is. (JavaScript also
  lowers letters outside ASCII. The general statements below hold for any lowering
  function, since both sides of a comparison go through the same one; the strings
  that are evaluated are ASCII.)
\<close>

definition lowerChar :: "char \<Rightarrow> char" where
  "lowerChar c =
     (let n = of_char c :: nat in if 65 \<le> n \<and> n \<le> 90 then char_of (n + 32) else c)"

definition toLowerCase :: "string \<Rightarrow> string" where
  "toLowerCase s = map lowerChar s"

subsection \<open>Recipes (lines 39 to 82)\<close>

record recipe =
  recipe_name :: string
  ingredients :: "string list"
  instructions :: string

text \<open>
  The static recipe list. The instructions are free text that no function reads except
  to display it; the line breaks in them are the byte 10, and the hyphen of
  \<open>Stir-Fry\<close> is the non-breaking hyphen U+2011 (bytes E2 80 91 in UTF-8).
\<close>

definition nl :: string where
  "nl = [CHR 0x0A]"

definition nbhyphen :: string where
  "nbhyphen = [CHR 0xE2, CHR 0x80, CHR 0x91]"

definition recipes :: "recipe list" where
  "recipes =
    [\<lparr>recipe_name = ''Spaghetti Marinara'',
      ingredients = [''spaghetti'', ''tomato sauce'', ''garlic'', ''olive oil''],
      instructions = ''1. Cook spaghetti according to package directions.'' @ nl @
        ''2. Heat tomato sauce with minced garlic in a pan with olive oil.'' @ nl @
        ''3. Combine spaghetti and sauce, toss well and serve.''\<rparr>,
     \<lparr>recipe_name = ''Peanut Butter Sandwich'',
      ingredients = [''bread'', ''peanut butter'', ''jelly''],
      instructions = ''Spread peanut butter and jelly on slices of bread and assemble. Cut diagonally and serve.''\<rparr>,
     \<lparr>recipe_name = ''Omelette'',
      ingredients = [''eggs'', ''milk'', ''cheese'', ''salt''],
      instructions = ''1. Beat eggs with a splash of milk and a pinch of salt.'' @ nl @
        ''2. Pour mixture into a heated, greased pan.'' @ nl @
        ''3. When partly set, sprinkle cheese and fold in half. Cook until done.''\<rparr>,
     \<lparr>recipe_name = ''Guacamole'',
      ingredients = [''avocado'', ''lime'', ''salt'', ''tomato'', ''onion''],
      instructions = ''1. Mash avocado flesh.'' @ nl @
        ''2. Stir in chopped tomato, onion, salt, and lime juice.'' @ nl @
        ''3. Serve with chips.''\<rparr>,
     \<lparr>recipe_name = ''Caprese Salad'',
      ingredients = [''tomato'', ''mozzarella'', ''basil'', ''olive oil'', ''salt''],
      instructions = ''1. Slice tomatoes and mozzarella.'' @ nl @
        ''2. Layer alternately on a plate with basil leaves.'' @ nl @
        ''3. Drizzle olive oil and sprinkle salt before serving.''\<rparr>,
     \<lparr>recipe_name = ''Fruit Smoothie'',
      ingredients = [''banana'', ''milk'', ''frozen berries'', ''honey''],
      instructions = ''Blend banana, milk, frozen berries, and honey until smooth. Serve chilled.''\<rparr>,
     \<lparr>recipe_name = ''Chicken Stir'' @ nbhyphen @ ''Fry'',
      ingredients = [''chicken breast'', ''soy sauce'', ''vegetables'', ''garlic'', ''rice''],
      instructions = ''1. Cook rice according to package directions.'' @ nl @
        ''2. Stir'' @ nbhyphen @ ''fry sliced chicken in oil until browned.'' @ nl @
        ''3. Add vegetables and minced garlic and cook until tender.'' @ nl @
        ''4. Stir in soy sauce and serve over rice.''\<rparr>]"

subsection \<open>Recipe feasibility (getRecipeSuggestions, lines 188 to 202)\<close>

text \<open>The predicate of both lookups: \<open>item.name.toLowerCase() === ingredient.toLowerCase()\<close>.\<close>

definition matches :: "string \<Rightarrow> item \<Rightarrow> bool" where
  "matches ingredient it \<longleftrightarrow> toLowerCase (name it) = toLowerCase ingredient"

text \<open>\<open>!found || found.quantity <= 0\<close>, for \<open>found = inventory.find(...)\<close>.\<close>

definition is_missing :: "inventory \<Rightarrow> string \<Rightarrow> bool" where
  "is_missing stock ingredient =
     (case find_first (matches ingredient) stock of
        None \<Rightarrow> True
      | Some found \<Rightarrow> quantity found \<le> 0)"

text \<open>
  The \<open>forEach\<close> over the ingredients, pushing each missing one to the end of
  \<open>missing\<close> (which starts empty).
\<close>

fun missing_loop :: "inventory \<Rightarrow> string list \<Rightarrow> string list \<Rightarrow> string list" where
  "missing_loop stock [] missing = missing"
| "missing_loop stock (ingredient # rest) missing =
     missing_loop stock rest
       (if is_missing stock ingredient then missing @ [ingredient] else missing)"

definition missing_of :: "inventory \<Rightarrow> recipe \<Rightarrow> string list" where
  "missing_of stock r = missing_loop stock (ingredients r) []"

definition getRecipeSuggestions :: "inventory \<Rightarrow> (recipe \<times> string list) list" where
  "getRecipeSuggestions stock = map (\<lambda>r. (r, missing_of stock r)) recipes"

text \<open>\<open>const canCook = missing.length === 0\<close> in \<open>render\<close>: the Cook button is enabled.\<close>

definition canCook :: "string list \<Rightarrow> bool" where
  "canCook missing \<longleftrightarrow> length missing = 0"

subsection \<open>The Cook handler (lines 464 to 480)\<close>

text \<open>
  The inventory after the handler's \<open>forEach\<close> over the ingredients: for each one,
  the first matching item is looked up and decremented if its quantity is positive.
\<close>

fun cook_loop :: "string list \<Rightarrow> inventory \<Rightarrow> inventory" where
  "cook_loop [] stock = stock"
| "cook_loop (ing # rest) stock = cook_loop rest (mutate_found (matches ing) decrement stock)"

text \<open>
  The handler reads the recipe name from the button, looks the recipe up by name in
  \<open>recipes\<close> and returns when there is none.
\<close>

definition cook :: "string \<Rightarrow> inventory \<Rightarrow> inventory" where
  "cook recipeName stock =
     (case find_first (\<lambda>r. recipe_name r = recipeName) recipes of
        None \<Rightarrow> stock
      | Some r \<Rightarrow> cook_loop (ingredients r) stock)"

subsection \<open>Dates and daysBetween (lines 146 to 155)\<close>

text \<open>
  A \<open>Date\<close> object is its time value: the milliseconds since 1970-01-01T00:00Z, or
  \<open>NaN\<close> for an invalid date, which is \<open>None\<close> here.

  The environment of the browser enters through three parameters:
  \<^item> \<open>now\<close>, the time value of \<open>new Date()\<close>;
  \<^item> \<open>tza\<close>, the offset of local time from UTC in milliseconds at a time value
    (local time is \<open>t + tza t\<close>; it is negative west of Greenwich);
  \<^item> \<open>newDate\<close>, the constructor \<open>new Date(string)\<close>, whose parser is the
    platform's.
\<close>

type_synonym date = "int option"

definition msPerDay :: int where
  "msPerDay = 1000 * 60 * 60 * 24"

text \<open>
  The number of the local calendar day of a time value, counted from 1970-01-01:
  \<open>Day(LocalTime(t))\<close> of the language definition.
\<close>

definition localDay :: "(int \<Rightarrow> int) \<Rightarrow> int \<Rightarrow> int" where
  "localDay tza t = (t + tza t) div msPerDay"

text \<open>
  The proleptic Gregorian calendar of the language definition, on day numbers.
  \<open>DayFromYear y\<close> is the number of the first day of year \<open>y\<close>; \<open>YearFromDay n\<close> is
  the year that day \<open>n\<close> falls in (the estimate from the mean length of a year,
  365.2425 days, is off by at most one); \<open>monthStart leap m\<close> is the day within the
  year on which month \<open>m\<close> (0 to 11) starts.
\<close>

definition InLeapYear :: "int \<Rightarrow> bool" where
  "InLeapYear y \<longleftrightarrow> y mod 4 = 0 \<and> (y mod 100 \<noteq> 0 \<or> y mod 400 = 0)"

definition DayFromYear :: "int \<Rightarrow> int" where
  "DayFromYear y =
     365 * (y - 1970) + (y - 1969) div 4 - (y - 1901) div 100 + (y - 1601) div 400"

definition YearFromDay :: "int \<Rightarrow> int" where
  "YearFromDay n =
     (let y = 1970 + (10000 * n) div 3652425
      in if n < DayFromYear y then y - 1
         else if DayFromYear (y + 1) \<le> n then y + 1
         else y)"

definition monthStart :: "bool \<Rightarrow> int \<Rightarrow> int" where
  "monthStart leap m =
     [0, 31, 59, 90, 120, 151, 181, 212, 243, 273, 304, 334] ! nat m
       + (if leap \<and> 2 \<le> m then 1 else 0)"

definition MonthFromDayInYear :: "bool \<Rightarrow> int \<Rightarrow> int" where
  "MonthFromDayInYear leap d =
     int (length (filter (\<lambda>m. monthStart leap m \<le> d) [1, 2, 3, 4, 5, 6, 7, 8, 9, 10, 11]))"

text \<open>
  \<open>d.getFullYear()\<close>, \<open>d.getMonth()\<close> (0 to 11) and \<open>d.getDate()\<close> (1 to 31): the
  year, month and day of the month of the local time of \<open>d\<close>.
\<close>

definition getFullYear :: "(int \<Rightarrow> int) \<Rightarrow> int \<Rightarrow> int" where
  "getFullYear tza t = YearFromDay (localDay tza t)"

definition getMonth :: "(int \<Rightarrow> int) \<Rightarrow> int \<Rightarrow> int" where
  "getMonth tza t =
     (let n = localDay tza t; y = YearFromDay n
      in MonthFromDayInYear (InLeapYear y) (n - DayFromYear y))"

definition getDate :: "(int \<Rightarrow> int) \<Rightarrow> int \<Rightarrow> int" where
  "getDate tza t =
     (let n = localDay tza t; y = YearFromDay n; d = n - DayFromYear y
      in d - monthStart (InLeapYear y) (MonthFromDayInYear (InLeapYear y) d) + 1)"

text \<open>
  \<open>MakeDay(year, month, date)\<close>: the number of the day \<open>date\<close> of month \<open>month\<close> of
  year \<open>year\<close>, with months outside 0 to 11 carried into the year.
\<close>

definition MakeDay :: "int \<Rightarrow> int \<Rightarrow> int \<Rightarrow> int" where
  "MakeDay year month date =
     (let ym = year + month div 12; mn = month mod 12
      in DayFromYear ym + monthStart (InLeapYear ym) mn + date - 1)"

text \<open>\<open>TimeClip\<close>: a time value beyond 100 000 000 days from the epoch is \<open>NaN\<close>.\<close>

definition TimeClip :: "int \<Rightarrow> date" where
  "TimeClip t = (if \<bar>t\<bar> \<le> 8640000000000000 then Some t else None)"

text \<open>
  \<open>Date.UTC(year, month, date)\<close>: the time value of 00:00 UTC on that calendar day.
  A year from 0 to 99 is read as 1900 + year.
\<close>

definition Date_UTC :: "int \<Rightarrow> int \<Rightarrow> int \<Rightarrow> date" where
  "Date_UTC year month date =
     (let yr = (if 0 \<le> year \<and> year \<le> 99 then 1900 + year else year)
      in TimeClip (MakeDay yr month date * msPerDay))"

text \<open>
  \<open>daysBetween(start, end)\<close>: both dates are rebuilt by \<open>Date.UTC\<close> from their local
  year, month and day, and the result is
  \<open>Math.floor((utcEnd - utcStart) / msPerDay)\<close>. Any arithmetic on \<open>NaN\<close> is \<open>NaN\<close>.
  (Both operands are multiples of \<open>msPerDay\<close> within the range of \<open>TimeClip\<close>, so the
  difference and the quotient are exact.)
\<close>

definition daysBetween :: "(int \<Rightarrow> int) \<Rightarrow> date \<Rightarrow> date \<Rightarrow> int option" where
  "daysBetween tza start endDate =
     (case start of
        None \<Rightarrow> None
      | Some s \<Rightarrow>
          (case endDate of
             None \<Rightarrow> None
           | Some e \<Rightarrow>
               (case Date_UTC (getFullYear tza s) (getMonth tza s) (getDate tza s) of
                  None \<Rightarrow> None
                | Some utcStart \<Rightarrow>
                    (case Date_UTC (getFullYear tza e) (getMonth tza e) (getDate tza e) of
                       None \<Rightarrow> None
                     | Some utcEnd \<Rightarrow> Some ((utcEnd - utcStart) div msPerDay)))))"

subsection \<open>Expiry classification (getSoonExpiringItems, lines 162 to 172)\<close>

text \<open>\<open>item.expirationDate\<close> as a condition: \<open>null\<close> and the empty string are falsy.\<close>

definition hasExpirationDate :: "item \<Rightarrow> bool" where
  "hasExpirationDate it =
     (case expirationDate it of None \<Rightarrow> False | Some s \<Rightarrow> s \<noteq> [])"

text \<open>
  \<open>new Date(item.expirationDate)\<close>, for the items that passed the first filter (the
  constructor is not reached with \<open>null\<close>).
\<close>

definition expireDate :: "(string \<Rightarrow> date) \<Rightarrow> item \<Rightarrow> date" where
  "expireDate newDate it =
     (case expirationDate it of None \<Rightarrow> None | Some s \<Rightarrow> newDate s)"

text \<open>\<open>entry.daysLeft <= 5\<close>; a comparison with \<open>NaN\<close> is false.\<close>

definition withinFiveDays :: "item \<times> int option \<Rightarrow> bool" where
  "withinFiveDays entry =
     (case snd entry of None \<Rightarrow> False | Some daysLeft \<Rightarrow> daysLeft \<le> 5)"

definition getSoonExpiringItems ::
    "(string \<Rightarrow> date) \<Rightarrow> (int \<Rightarrow> int) \<Rightarrow> int \<Rightarrow> inventory \<Rightarrow> (item \<times> int option) list" where
  "getSoonExpiringItems newDate tza now stock =
     filter withinFiveDays
       (map (\<lambda>it. (it, daysBetween tza (Some now) (expireDate newDate it)))
          (filter hasExpirationDate stock))"

text \<open>
  The day difference in the words of the specification: whole UTC calendar days
  between two time values, ignoring the time of day.
\<close>

definition spec_utcDaysBetween :: "int \<Rightarrow> int \<Rightarrow> int" where
  "spec_utcDaysBetween start endDate = endDate div msPerDay - start div msPerDay"

text \<open>
  The time values whose local calendar day \<open>Date.UTC\<close> gives back: the local year is
  not one of 0 to 99, and the local day is within 100 000 000 days of the epoch.
\<close>

definition ordinaryDate :: "(int \<Rightarrow> int) \<Rightarrow> int \<Rightarrow> bool" where
  "ordinaryDate tza t \<longleftrightarrow>
     \<not> (0 \<le> getFullYear tza t \<and> getFullYear tza t \<le> 99)
     \<and> \<bar>localDay tza t\<bar> \<le> 100000000"

subsection \<open>Cheapest store (priceData, lines 87 to 123; getCheapestStoreFor, lines 207 to 215)\<close>

record price_entry =
  store :: string
  price :: real

text \<open>The own properties of the object literal \<open>priceData\<close>, in source order.\<close>

definition priceData :: "(string \<times> price_entry list) list" where
  "priceData =
    [(''bread'', [\<lparr>store = ''Walmart'', price = 1.5\<rparr>, \<lparr>store = ''Target'', price = 1.4\<rparr>,
                 \<lparr>store = ''Publix'', price = 1.6\<rparr>]),
     (''milk'', [\<lparr>store = ''Walmart'', price = 2.0\<rparr>, \<lparr>store = ''Target'', price = 2.2\<rparr>,
                \<lparr>store = ''Costco'', price = 1.8\<rparr>]),
     (''eggs'', [\<lparr>store = ''Publix'', price = 2.5\<rparr>, \<lparr>store = ''Walmart'', price = 2.3\<rparr>,
                \<lparr>store = ''Target'', price = 2.6\<rparr>]),
     (''tomato sauce'', [\<lparr>store = ''Publix'', price = 1.8\<rparr>, \<lparr>store = ''Walmart'', price = 1.6\<rparr>,
                \<lparr>store = ''Target'', price = 1.7\<rparr>]),
     (''spaghetti'', [\<lparr>store = ''Publix'', price = 1.2\<rparr>, \<lparr>store = ''Walmart'', price = 1.1\<rparr>,
                \<lparr>store = ''Target'', price = 1.3\<rparr>]),
     (''cheese'', [\<lparr>store = ''Publix'', price = 2.9\<rparr>, \<lparr>store = ''Walmart'', price = 2.7\<rparr>,
                \<lparr>store = ''Costco'', price = 2.5\<rparr>]),
     (''bananas'', [\<lparr>store = ''Publix'', price = 0.5\<rparr>, \<lparr>store = ''Walmart'', price = 0.45\<rparr>,
                \<lparr>store = ''Costco'', price = 0.4\<rparr>])]"

text \<open>
  \<open>priceData[key]\<close> reads a property of an ordinary object: an own property if there
  is one, otherwise the property of that name inherited from \<open>Object.prototype\<close>,
  otherwise \<open>undefined\<close>. The inherited values are functions (for \<open>__proto__\<close> the
  prototype object itself); of such a value the code reads \<open>length\<close>, which is the
  function's number of parameters (\<open>undefined\<close> for the prototype object), index
  \<open>0\<close> and \<open>forEach\<close>, which are both \<open>undefined\<close>.
\<close>

datatype property =
    Undefined
  | Entries "price_entry list"
  | Inherited "nat option"

definition objectPrototype :: "(string \<times> nat option) list" where
  "objectPrototype =
    [(''constructor'', Some 1), (''__proto__'', None), (''hasOwnProperty'', Some 1),
     (''isPrototypeOf'', Some 1), (''propertyIsEnumerable'', Some 1),
     (''toLocaleString'', Some 0), (''toString'', Some 0), (''valueOf'', Some 0),
     (''__defineGetter__'', Some 2), (''__defineSetter__'', Some 2),
     (''__lookupGetter__'', Some 1), (''__lookupSetter__'', Some 1)]"

definition priceData_get :: "string \<Rightarrow> property" where
  "priceData_get key =
     (case map_of priceData key of
        Some list \<Rightarrow> Entries list
      | None \<Rightarrow>
          (case map_of objectPrototype key of
             Some len \<Rightarrow> Inherited len
           | None \<Rightarrow> Undefined))"

datatype js_error = TypeError | SyntaxError

text \<open>
  The \<open>forEach\<close> of \<open>getCheapestStoreFor\<close>: \<open>cheapest\<close> is replaced by an entry
  only when that entry's price is strictly lower.
\<close>

fun cheapest_loop :: "price_entry \<Rightarrow> price_entry list \<Rightarrow> price_entry" where
  "cheapest_loop cheapest [] = cheapest"
| "cheapest_loop cheapest (entry # rest) =
     cheapest_loop (if price entry < price cheapest then entry else cheapest) rest"

text \<open>
  The function on a price list: \<open>null\<close> on the empty list, otherwise the loop started
  with \<open>list[0]\<close> over the whole list.
\<close>

definition cheapestOf :: "price_entry list \<Rightarrow> price_entry option" where
  "cheapestOf list =
     (case list of [] \<Rightarrow> None | first # _ \<Rightarrow> Some (cheapest_loop first list))"

text \<open>
  \<open>getCheapestStoreFor\<close>. On an inherited value: \<open>!list\<close> is false; when its
  \<open>length\<close> is 0 the function returns \<open>null\<close>; otherwise \<open>list[0]\<close> is
  \<open>undefined\<close> and the call \<open>list.forEach(...)\<close> throws a \<open>TypeError\<close>.
\<close>

definition getCheapestStoreFor :: "string \<Rightarrow> js_error + price_entry option" where
  "getCheapestStoreFor itemName =
     (case priceData_get (toLowerCase itemName) of
        Undefined \<Rightarrow> Inr None
      | Entries list \<Rightarrow> Inr (cheapestOf list)
      | Inherited len \<Rightarrow> (if len = Some 0 then Inr None else Inl TypeError))"

text \<open>
  The entry that a minimum-price scan is specified to return: an entry of the list of
  minimal price, with every entry before it strictly more expensive.
\<close>

definition first_min :: "price_entry \<Rightarrow> price_entry list \<Rightarrow> bool" where
  "first_min e ys \<longleftrightarrow>
     (\<exists>i < length ys. e = ys ! i \<and> (\<forall>j < length ys. price e \<le> price (ys ! j))
        \<and> (\<forall>j < i. price e < price (ys ! j)))"

subsection \<open>JSON values and JSON.stringify(inventory) (saveInventory, lines 128 to 130)\<close>

text \<open>
  The value that \<open>JSON.parse\<close> returns. An object is the list of its properties in
  the order of their creation. A number is the real number its literal denotes.
\<close>

datatype json =
    JNull
  | JBool bool
  | JNumber real
  | JString string
  | JArray "json list"
  | JObject "(string \<times> json) list"















subsection \<open>JSON.parse\<close>

text \<open>
  The JSON grammar, on the bytes of the text. White space is space, tab, line feed and
  carriage return. In a string, a raw control character is a syntax error; an escape
  \<open>\uxxxx\<close> is read as the UTF-8 bytes of that code unit (two escapes that form a
  surrogate pair are not combined). A parser returns the value and the rest of the
  text, or \<open>None\<close> for a syntax error.
\<close>

definition isWS :: "char \<Rightarrow> bool" where
  "isWS c \<longleftrightarrow> c = CHR 0x20 \<or> c = CHR 0x09 \<or> c = CHR 0x0A \<or> c = CHR 0x0D"

definition skipWS :: "string \<Rightarrow> string" where
  "skipWS s = dropWhile isWS s"

definition isDigit :: "char \<Rightarrow> bool" where
  "isDigit c \<longleftrightarrow> 48 \<le> (of_char c :: nat) \<and> (of_char c :: nat) \<le> 57"

definition digitsVal :: "string \<Rightarrow> nat" where
  "digitsVal ds = foldl (\<lambda>a c. 10 * a + ((of_char c :: nat) - 48)) 0 ds"

definition hexVal :: "char \<Rightarrow> nat option" where
  "hexVal c =
     (let n = (of_char c :: nat) in
      if 48 \<le> n \<and> n \<le> 57 then Some (n - 48)
      else if 97 \<le> n \<and> n \<le> 102 then Some (n - 87)
      else if 65 \<le> n \<and> n \<le> 70 then Some (n - 55)
      else None)"

definition hex4 :: "char \<Rightarrow> char \<Rightarrow> char \<Rightarrow> char \<Rightarrow> nat option" where
  "hex4 a b c d =
     (case (hexVal a, hexVal b, hexVal c, hexVal d) of
        (Some w, Some x, Some y, Some z) \<Rightarrow> Some (4096 * w + 256 * x + 16 * y + z)
      | _ \<Rightarrow> None)"

definition utf8 :: "nat \<Rightarrow> string" where
  "utf8 u =
     (if u < 0x80 then [char_of u]
      else if u < 0x800 then [char_of (0xC0 + u div 64), char_of (0x80 + u mod 64)]
      else [char_of (0xE0 + u div 4096), char_of (0x80 + (u div 64) mod 64),
            char_of (0x80 + u mod 64)])"

definition unescape :: "char \<Rightarrow> char option" where
  "unescape e =
     (if e = CHR 0x22 then Some (CHR 0x22)
      else if e = CHR 0x5C then Some (CHR 0x5C)
      else if e = CHR ''/'' then Some (CHR ''/'')
      else if e = CHR ''b'' then Some (CHR 0x08)
      else if e = CHR ''f'' then Some (CHR 0x0C)
      else if e = CHR ''n'' then Some (CHR 0x0A)
      else if e = CHR ''r'' then Some (CHR 0x0D)
      else if e = CHR ''t'' then Some (CHR 0x09)
      else None)"

text \<open>The characters of a string, after its opening quote, up to the closing one.\<close>

fun parse_chars :: "string \<Rightarrow> (string \<times> string) option" where
  "parse_chars [] = None"
| "parse_chars (c # cs) =
     (if c = CHR 0x22 then Some ([], cs)
      else if c = CHR 0x5C then
        (case cs of
           [] \<Rightarrow> None
         | e # es \<Rightarrow>
             if e = CHR ''u'' then
               (case es of
                  h1 # h2 # h3 # h4 # rest \<Rightarrow>
                    (case hex4 h1 h2 h3 h4 of
                       None \<Rightarrow> None
                     | Some u \<Rightarrow>
                         (case parse_chars rest of
                            None \<Rightarrow> None
                          | Some (x, r) \<Rightarrow> Some (utf8 u @ x, r)))
                | _ \<Rightarrow> None)
             else
               (case unescape e of
                  None \<Rightarrow> None
                | Some b \<Rightarrow>
                    (case parse_chars es of
                       None \<Rightarrow> None
                     | Some (x, r) \<Rightarrow> Some (b # x, r))))
      else if (of_char c :: nat) < 32 then None
      else (case parse_chars cs of None \<Rightarrow> None | Some (x, r) \<Rightarrow> Some (c # x, r)))"

text \<open>
  A number: an optional minus, an integer part without superfluous leading zero, an
  optional fraction and an optional exponent.
\<close>

definition parse_fraction :: "string \<Rightarrow> (real \<times> string) option" where
  "parse_fraction s =
     (case s of
        [] \<Rightarrow> Some (0, s)
      | c # cs \<Rightarrow>
          if c = CHR ''.'' then
            (let ds = takeWhile isDigit cs in
             if ds = [] then None
             else Some (of_nat (digitsVal ds) / 10 ^ length ds, dropWhile isDigit cs))
          else Some (0, s))"

definition parse_exponent :: "string \<Rightarrow> (int \<times> string) option" where
  "parse_exponent s =
     (case s of
        [] \<Rightarrow> Some (0, s)
      | c # cs \<Rightarrow>
          if c = CHR ''e'' \<or> c = CHR ''E'' then
            (let neg = (case cs of [] \<Rightarrow> False | g # _ \<Rightarrow> g = CHR ''-'');
                 signed = (case cs of [] \<Rightarrow> False | g # _ \<Rightarrow> g = CHR ''-'' \<or> g = CHR ''+'');
                 cs' = (if signed then tl cs else cs);
                 ds = takeWhile isDigit cs' in
             if ds = [] then None
             else Some ((if neg then - int (digitsVal ds) else int (digitsVal ds)),
                        dropWhile isDigit cs'))
          else Some (0, s))"

definition int_part :: "string \<Rightarrow> string" where
  "int_part s =
     (case s of [] \<Rightarrow> [] | c # _ \<Rightarrow> if c = CHR ''0'' then [c] else takeWhile isDigit s)"

definition parse_number :: "string \<Rightarrow> (real \<times> string) option" where
  "parse_number s =
     (let neg = (case s of [] \<Rightarrow> False | c # _ \<Rightarrow> c = CHR ''-'');
          s1 = (if neg then tl s else s);
          ip = int_part s1
      in if ip = [] then None
         else
           (case parse_fraction (drop (length ip) s1) of
              None \<Rightarrow> None
            | Some (fr, s3) \<Rightarrow>
                (case parse_exponent s3 of
                   None \<Rightarrow> None
                 | Some (ex, s4) \<Rightarrow>
                     Some ((if neg then - 1 else 1) * (of_nat (digitsVal ip) + fr) * 10 powi ex,
                           s4))))"

text \<open>
  A property defined twice in an object text keeps its first position and takes the
  later value.
\<close>

fun obj_put :: "(string \<times> json) list \<Rightarrow> string \<times> json \<Rightarrow> (string \<times> json) list" where
  "obj_put [] kv = [kv]"
| "obj_put (p # ps) kv = (if fst p = fst kv then kv # ps else p # obj_put ps kv)"

text \<open>
  A value; the elements of an array after its opening bracket, up to the closing one;
  and the members of an object likewise. The tests on the length of the rest hold for
  every text (a value and a key take at least one character); they are written out to
  make the recursion visibly terminate.
\<close>

function parse_value :: "string \<Rightarrow> (json \<times> string) option"
  and parse_elements :: "string \<Rightarrow> (json list \<times> string) option"
  and parse_members :: "string \<Rightarrow> ((string \<times> json) list \<times> string) option"
where
  "parse_value s =
     (case skipWS s of
        [] \<Rightarrow> None
      | c # cs \<Rightarrow>
          if c = CHR ''['' then
            (case skipWS cs of
               [] \<Rightarrow> None
             | d # ds \<Rightarrow>
                 if d = CHR '']'' then Some (JArray [], ds)
                 else (case parse_elements (d # ds) of
                         None \<Rightarrow> None
                       | Some (vs, r) \<Rightarrow> Some (JArray vs, r)))
          else if c = CHR ''{'' then
            (case skipWS cs of
               [] \<Rightarrow> None
             | d # ds \<Rightarrow>
                 if d = CHR ''}'' then Some (JObject [], ds)
                 else (case parse_members (d # ds) of
                         None \<Rightarrow> None
                       | Some (kvs, r) \<Rightarrow> Some (JObject (foldl obj_put [] kvs), r)))
          else if c = CHR 0x22 then
            (case parse_chars cs of None \<Rightarrow> None | Some (x, r) \<Rightarrow> Some (JString x, r))
          else if take 4 (c # cs) = ''true'' then Some (JBool True, drop 4 (c # cs))
          else if take 5 (c # cs) = ''false'' then Some (JBool False, drop 5 (c # cs))
          else if take 4 (c # cs) = ''null'' then Some (JNull, drop 4 (c # cs))
          else (case parse_number (c # cs) of
                  None \<Rightarrow> None
                | Some (x, r) \<Rightarrow> Some (JNumber x, r)))"
| "parse_elements s =
     (case parse_value s of
        None \<Rightarrow> None
      | Some (v, r) \<Rightarrow>
          if length s \<le> length r then None
          else
            (case skipWS r of
               [] \<Rightarrow> None
             | c # cs \<Rightarrow>
                 if c = CHR '','' then
                   (case parse_elements cs of
                      None \<Rightarrow> None
                    | Some (vs, r') \<Rightarrow> Some (v # vs, r'))
                 else if c = CHR '']'' then Some ([v], cs)
                 else None))"
| "parse_members s =
     (case skipWS s of
        [] \<Rightarrow> None
      | q # cs \<Rightarrow>
          if q \<noteq> CHR 0x22 then None
          else
            (case parse_chars cs of
               None \<Rightarrow> None
             | Some (k, r0) \<Rightarrow>
                 (case skipWS r0 of
                    [] \<Rightarrow> None
                  | colon # r1 \<Rightarrow>
                      if colon \<noteq> CHR '':'' \<or> length s \<le> length r1 then None
                      else
                        (case parse_value r1 of
                           None \<Rightarrow> None
                         | Some (v, r2) \<Rightarrow>
                             if length r1 \<le> length r2 then None
                             else
                               (case skipWS r2 of
                                  [] \<Rightarrow> None
                                | c # r3 \<Rightarrow>
                                    if c = CHR '','' then
                                      (case parse_members r3 of
                                         None \<Rightarrow> None
                                       | Some (kvs, r') \<Rightarrow> Some ((k, v) # kvs, r'))
                                    else if c = CHR ''}'' then Some ([(k, v)], r3)
                                    else None)))))"
  by pat_completeness auto
termination
proof (relation "measure (\<lambda>x. case x of Inl s \<Rightarrow> 2 * length s
                                   | Inr (Inl s) \<Rightarrow> 2 * length s + 1
                                   | Inr (Inr s) \<Rightarrow> 2 * length s + 1)", goal_cases)
  case 1
  show ?case by simp
next
  case (2 s c cs d ds)
  have "length (skipWS s) \<le> length s" "length (skipWS cs) \<le> length cs"
    by (simp_all add: skipWS_def length_dropWhile_le)
  with 2 show ?case by simp
next
  case (3 s c cs d ds)
  have "length (skipWS s) \<le> length s" "length (skipWS cs) \<le> length cs"
    by (simp_all add: skipWS_def length_dropWhile_le)
  with 3 show ?case by simp
next
  case (4 s)
  show ?case by simp
next
  case (5 s x v r c cs)
  have "length (skipWS r) \<le> length r"
    by (simp add: skipWS_def length_dropWhile_le)
  with 5 show ?case by simp
next
  case (6 s q cs x k r0 colon r1)
  then show ?case by simp
next
  case (7 s q cs x k r0 colon r1 y v r2 c r3)
  have "length (skipWS r2) \<le> length r2"
    by (simp add: skipWS_def length_dropWhile_le)
  with 7 show ?case by simp
qed

text \<open>
  \<open>JSON.parse(text)\<close>: the value of the whole text, or a \<open>SyntaxError\<close>.
\<close>

definition JSON_parse :: "string \<Rightarrow> js_error + json" where
  "JSON_parse s =
     (case parse_value s of
        None \<Rightarrow> Inl SyntaxError
      | Some (v, r) \<Rightarrow> if skipWS r = [] then Inr v else Inl SyntaxError)"

declare parse_value.simps [simp del] parse_elements.simps [simp del]
  parse_members.simps [simp del]

text \<open>
  A parsed value read as an inventory, where it is one: an array of objects with
  exactly the six properties of an item, in the order in which the program creates
  them, each of its type (the quantity an integer).
\<close>

definition nullable_of_json :: "json \<Rightarrow> string option option" where
  "nullable_of_json v = (case v of JNull \<Rightarrow> Some None | JString s \<Rightarrow> Some (Some s) | _ \<Rightarrow> None)"

definition item_of_json :: "json \<Rightarrow> item option" where
  "item_of_json v =
     (case v of
        JObject [(k1, JString i), (k2, JString n), (k3, JNumber q), (k4, e), (k5, b), (k6, JBool r)] \<Rightarrow>
          (case (nullable_of_json e, nullable_of_json b) of
             (Some e', Some b') \<Rightarrow>
               if [k1, k2, k3, k4, k5, k6] =
                    [''id'', ''name'', ''quantity'', ''expirationDate'', ''barcode'', ''regular'']
                  \<and> q = of_int \<lfloor>q\<rfloor>
               then Some \<lparr>item_id = i, name = n, quantity = \<lfloor>q\<rfloor>, expirationDate = e',
                           barcode = b', regular = r\<rparr>
               else None
           | _ \<Rightarrow> None)
      | _ \<Rightarrow> None)"

fun all_some :: "'a option list \<Rightarrow> 'a list option" where
  "all_some [] = Some []"
| "all_some (x # xs) =
     (case x of None \<Rightarrow> None
      | Some y \<Rightarrow> (case all_some xs of None \<Rightarrow> None | Some ys \<Rightarrow> Some (y # ys)))"

definition inventory_of_json :: "json \<Rightarrow> inventory option" where
  "inventory_of_json v = (case v of JArray vs \<Rightarrow> all_some (map item_of_json vs) | _ \<Rightarrow> None)"

subsection \<open>localStorage, saving and loading (lines 27 to 34 and 128 to 130)\<close>

text \<open>
  \<open>localStorage\<close> maps keys to strings; \<open>getItem\<close> of an absent key is \<open>null\<close>.
  The store is taken to have room for what is written.
\<close>

type_synonym storage = "string \<Rightarrow> string option"


text \<open>
  The body of the \<open>try\<close> at start-up: \<open>Inl\<close> is an exception thrown in it,
  \<open>Inr None\<close> is no assignment (nothing stored, or the empty string, which is
  falsy), \<open>Inr (Some v)\<close> the value assigned to \<open>inventory\<close>.
\<close>

definition readStoredInventory :: "storage \<Rightarrow> js_error + json option" where
  "readStoredInventory ls =
     (case ls ''inventory'' of
        None \<Rightarrow> Inr None
      | Some stored \<Rightarrow>
          if stored = [] then Inr None
          else (case JSON_parse stored of Inl e \<Rightarrow> Inl e | Inr v \<Rightarrow> Inr (Some v)))"

text \<open>
  \<open>let inventory = []; try { ... } catch (e) { console.warn(...) }\<close>: the value of
  \<open>inventory\<close> after start-up. The \<open>catch\<close> only logs, so the initial empty array
  stays.
\<close>

definition loadInventory :: "storage \<Rightarrow> json" where
  "loadInventory ls =
     (case readStoredInventory ls of
        Inl e \<Rightarrow> JArray []
      | Inr None \<Rightarrow> JArray []
      | Inr (Some v) \<Rightarrow> v)"

subsection \<open>The add form (lines 408 to 428)\<close>

record app_state =
  inventory :: inventory
  localStorage :: storage







section \<open>Facts about numbers\<close>

lemma toDouble_exact: "\<bar>n\<bar> \<le> 2 ^ 53 \<Longrightarrow> toDouble n = n"
  by (simp add: toDouble_def)

lemma roundSignificand_nonneg: "0 \<le> m \<Longrightarrow> 0 \<le> roundSignificand m"
  by (simp add: roundSignificand_def Let_def pos_imp_zdiv_nonneg_iff)

lemma toDouble_nonneg: "0 \<le> n \<Longrightarrow> 0 \<le> toDouble n"
  by (simp add: toDouble_def roundSignificand_nonneg)

text \<open>
  Beyond \<open>2 ^ 53\<close> subtracting 1 need not change a number, and can change it by 2:
  \<open>1e21 - 1\<close> is \<open>1e21\<close>, \<open>9007199254740994 - 1\<close> is \<open>9007199254740992\<close>, and
  \<open>9007199254740996 - 1\<close> is \<open>9007199254740996\<close>.
\<close>

lemma toDouble_examples:
  "toDouble (1000000000000000000000 - 1) = 1000000000000000000000"
  "toDouble (9007199254740994 - 1) = 9007199254740992"
  "toDouble (9007199254740996 - 1) = 9007199254740996"
  "toDouble (9007199254740992 - 1) = 9007199254740991"
  by code_simp+

section \<open>Facts about find and in-place mutation\<close>

lemma find_first_None_iff: "find_first p xs = None \<longleftrightarrow> (\<forall>x \<in> set xs. \<not> p x)"
  by (induction xs) auto

lemma find_pos_None_iff: "find_pos p xs = None \<longleftrightarrow> (\<forall>x \<in> set xs. \<not> p x)"
  by (induction xs) (auto split: option.splits)

lemma find_pos_Cons_Some:
  "find_pos p (x # xs) = Some i \<longleftrightarrow>
     (if p x then i = 0 else \<exists>k. i = Suc k \<and> find_pos p xs = Some k)"
  by (cases "find_pos p xs") auto

lemma find_pos_Some_iff:
  "find_pos p xs = Some i \<longleftrightarrow> i < length xs \<and> p (xs ! i) \<and> (\<forall>j < i. \<not> p (xs ! j))"
proof (induction xs arbitrary: i)
  case Nil
  show ?case by simp
next
  case (Cons x xs)
  show ?case
  proof (cases i)
    case 0
    then show ?thesis by (simp only: find_pos_Cons_Some) simp
  next
    case (Suc k)
    have all: "(\<forall>j < Suc k. \<not> p ((x # xs) ! j)) \<longleftrightarrow> \<not> p x \<and> (\<forall>j < k. \<not> p (xs ! j))"
      by (simp add: All_less_Suc2)
    have "find_pos p (x # xs) = Some (Suc k) \<longleftrightarrow> \<not> p x \<and> find_pos p xs = Some k"
      by (simp only: find_pos_Cons_Some) simp
    also have "\<dots> \<longleftrightarrow> \<not> p x \<and> k < length xs \<and> p (xs ! k) \<and> (\<forall>j < k. \<not> p (xs ! j))"
      by (simp only: Cons.IH [of k])
    also have "\<dots> \<longleftrightarrow> Suc k < length (x # xs) \<and> p ((x # xs) ! Suc k)
                      \<and> (\<forall>j < Suc k. \<not> p ((x # xs) ! j))"
      unfolding all by auto
    finally show ?thesis unfolding Suc .
  qed
qed

lemma find_first_Some_pos:
  "find_first p xs = Some y \<longleftrightarrow> (\<exists>i. find_pos p xs = Some i \<and> y = xs ! i)"
proof (induction xs)
  case Nil
  show ?case by simp
next
  case (Cons x xs)
  show ?case
  proof (cases "p x")
    case True
    then show ?thesis by auto
  next
    case False
    have "(\<exists>i. find_pos p (x # xs) = Some i \<and> y = (x # xs) ! i)
            \<longleftrightarrow> (\<exists>k. find_pos p xs = Some k \<and> y = xs ! k)"
      unfolding find_pos_Cons_Some using False by auto
    with False Cons.IH show ?thesis by simp
  qed
qed

lemma mutate_found_pos:
  "mutate_found p f xs = (case find_pos p xs of None \<Rightarrow> xs | Some i \<Rightarrow> xs[i := f (xs ! i)])"
  by (induction xs) (simp_all split: option.splits)

lemma length_mutate_found [simp]: "length (mutate_found p f xs) = length xs"
  by (induction xs) auto

lemma find_pos_unique:
  assumes "i < length xs" and "p (xs ! i)" and "\<forall>j < length xs. p (xs ! j) \<longrightarrow> j = i"
  shows "find_pos p xs = Some i"
proof -
  have "\<not> p (xs ! j)" if "j < i" for j
  proof
    assume "p (xs ! j)"
    moreover from that assms(1) have "j < length xs" by simp
    ultimately have "j = i" using assms(3) by blast
    with that show False by simp
  qed
  with assms(1,2) show ?thesis by (simp add: find_pos_Some_iff)
qed

lemma find_pos_by_key:
  assumes "distinct (map k xs)" and "i < length xs"
  shows "find_pos (\<lambda>x. k x = k (xs ! i)) xs = Some i"
proof (rule find_pos_unique)
  show "i < length xs" by fact
  show "k (xs ! i) = k (xs ! i)" by simp
  show "\<forall>j < length xs. k (xs ! j) = k (xs ! i) \<longrightarrow> j = i"
    using assms by (auto simp: distinct_conv_nth)
qed

lemma filter_remove_by_key:
  assumes "distinct (map k xs)" and "i < length xs"
  shows "filter (\<lambda>x. k x \<noteq> k (xs ! i)) xs = take i xs @ drop (Suc i) xs"
  using assms
proof (induction xs arbitrary: i)
  case Nil
  then show ?case by simp
next
  case (Cons x xs)
  show ?case
  proof (cases i)
    case 0
    have "k y \<noteq> k x" if "y \<in> set xs" for y
      using Cons.prems(1) that by (auto simp: image_iff)
    then have "filter (\<lambda>y. k y \<noteq> k x) xs = xs"
      by (simp add: filter_id_conv)
    with 0 show ?thesis by simp
  next
    case (Suc j)
    with Cons.prems have j: "j < length xs" and d: "distinct (map k xs)"
      and ne: "k x \<noteq> k (xs ! j)"
      by auto
    from Cons.IH [OF d j] Suc ne show ?thesis by simp
  qed
qed

section \<open>Restock\<close>

text \<open>
  C5. An item is in the restock set exactly when its \<open>regular\<close> flag is set and its
  quantity is at most 0; the result keeps the inventory's order. So an item with
  \<open>regular = true\<close> and quantity 0 is in the set whenever it is in the inventory, and
  the same item with quantity 1 never is.
\<close>

theorem restock_iff:
  "set (getRestockItems stock) = {it \<in> set stock. regular it \<and> quantity it \<le> 0}
   \<and> getRestockItems stock = filter (\<lambda>it. regular it \<and> quantity it \<le> 0) stock
   \<and> (it\<lparr>regular := True, quantity := 0\<rparr> \<in> set (getRestockItems stock)
        \<longleftrightarrow> it\<lparr>regular := True, quantity := 0\<rparr> \<in> set stock)
   \<and> it\<lparr>regular := True, quantity := 1\<rparr> \<notin> set (getRestockItems stock)"
  by (auto simp: getRestockItems_def)

section \<open>Delete and use\<close>

text \<open>
  C6. In an inventory whose identifiers are unique, deleting by the identifier of the
  item at position \<open>i\<close> removes exactly that item: the result is the items before
  it followed by the items after it, unchanged and in their order.
\<close>

theorem delete_removes_exactly_that_item:
  assumes "distinct (map item_id stock)" and "i < length stock"
  shows "deleteItem (item_id (stock ! i)) stock = take i stock @ drop (Suc i) stock"
  unfolding deleteItem_def using assms by (rule filter_remove_by_key)

lemma useItem_first_with_id:
  assumes "find_pos (\<lambda>itm. item_id itm = i) stock = Some k"
  shows "useItem i stock =
           stock[k := (stock ! k)\<lparr>quantity :=
             (if quantity (stock ! k) > 0 then toDouble (quantity (stock ! k) - 1)
              else quantity (stock ! k))\<rparr>]"
  using assms by (simp add: useItem_def mutate_found_pos decrement_def)

lemma useItem_absent:
  assumes "find_pos (\<lambda>itm. item_id itm = i) stock = None"
  shows "useItem i stock = stock"
  using assms by (simp add: useItem_def mutate_found_pos)

text \<open>
  C7. In an inventory whose identifiers are unique, the Use action on the item at
  position \<open>i\<close> replaces that item's quantity \<open>q\<close>, when it is positive, by the double
  nearest to \<open>q - 1\<close>, and leaves it (so 0 stays 0) otherwise; the item's other fields
  and all other items are unchanged. When \<open>0 < q \<le> 2 ^ 53\<close> the new quantity is
  exactly \<open>q - 1\<close>.
\<close>

theorem use_decrements_that_item_only:
  assumes "distinct (map item_id stock)" and "i < length stock"
  shows "useItem (item_id (stock ! i)) stock =
           stock[i := (stock ! i)\<lparr>quantity :=
             (if quantity (stock ! i) > 0 then toDouble (quantity (stock ! i) - 1)
              else quantity (stock ! i))\<rparr>]
     \<and> (0 < quantity (stock ! i) \<and> quantity (stock ! i) \<le> 2 ^ 53 \<longrightarrow>
          useItem (item_id (stock ! i)) stock =
            stock[i := (stock ! i)\<lparr>quantity := quantity (stock ! i) - 1\<rparr>])
     \<and> (quantity (stock ! i) \<le> 0 \<longrightarrow> useItem (item_id (stock ! i)) stock = stock)"
proof -
  have "find_pos (\<lambda>itm. item_id itm = item_id (stock ! i)) stock = Some i"
    using assms by (rule find_pos_by_key)
  then have use: "useItem (item_id (stock ! i)) stock =
           stock[i := (stock ! i)\<lparr>quantity :=
             (if quantity (stock ! i) > 0 then toDouble (quantity (stock ! i) - 1)
              else quantity (stock ! i))\<rparr>]"
    by (rule useItem_first_with_id)
  have exact: "toDouble (quantity (stock ! i) - 1) = quantity (stock ! i) - 1"
    if "0 < quantity (stock ! i)" and "quantity (stock ! i) \<le> 2 ^ 53"
    using that by (intro toDouble_exact) simp
  show ?thesis
    using use exact by simp
qed

text \<open>
  Where the claim as stated fails. A quantity of \<open>1e21\<close> (which the add form stores for
  a field of 1 followed by 21 zeros) is unchanged by Use, and \<open>9007199254740994\<close> goes
  down by 2. And the identifiers are not checked for uniqueness: with two items
  carrying the same identifier, Use on the second one changes the first.
\<close>

theorem use_counterexample:
  "useItem ''a1''
      [\<lparr>item_id = ''a1'', name = ''rice'', quantity = 1000000000000000000000,
         expirationDate = None, barcode = None, regular = True\<rparr>]
     = [\<lparr>item_id = ''a1'', name = ''rice'', quantity = 1000000000000000000000,
         expirationDate = None, barcode = None, regular = True\<rparr>]
   \<and> useItem ''a1''
      [\<lparr>item_id = ''a1'', name = ''rice'', quantity = 9007199254740994,
         expirationDate = None, barcode = None, regular = True\<rparr>]
     = [\<lparr>item_id = ''a1'', name = ''rice'', quantity = 9007199254740992,
         expirationDate = None, barcode = None, regular = True\<rparr>]
   \<and> useItem (item_id
        ([\<lparr>item_id = ''a1'', name = ''bread'', quantity = 2, expirationDate = None,
           barcode = None, regular = True\<rparr>,
          \<lparr>item_id = ''a1'', name = ''milk'', quantity = 1, expirationDate = None,
           barcode = None, regular = False\<rparr>] ! 1))
      [\<lparr>item_id = ''a1'', name = ''bread'', quantity = 2, expirationDate = None,
         barcode = None, regular = True\<rparr>,
       \<lparr>item_id = ''a1'', name = ''milk'', quantity = 1, expirationDate = None,
         barcode = None, regular = False\<rparr>]
     = [\<lparr>item_id = ''a1'', name = ''bread'', quantity = 1, expirationDate = None,
         barcode = None, regular = True\<rparr>,
        \<lparr>item_id = ''a1'', name = ''milk'', quantity = 1, expirationDate = None,
         barcode = None, regular = False\<rparr>]"
  by code_simp

theorem delete_removes_exactly_that_item_witness:
  "distinct (map item_id
      [\<lparr>item_id = ''a1'', name = ''bread'', quantity = 2, expirationDate = None,
         barcode = None, regular = True\<rparr>,
       \<lparr>item_id = ''b2'', name = ''milk'', quantity = 1, expirationDate = Some ''2024-01-16'',
         barcode = None, regular = False\<rparr>,
       \<lparr>item_id = ''c3'', name = ''eggs'', quantity = 0, expirationDate = None,
         barcode = None, regular = True\<rparr>])
   \<and> deleteItem ''b2''
      [\<lparr>item_id = ''a1'', name = ''bread'', quantity = 2, expirationDate = None,
         barcode = None, regular = True\<rparr>,
       \<lparr>item_id = ''b2'', name = ''milk'', quantity = 1, expirationDate = Some ''2024-01-16'',
         barcode = None, regular = False\<rparr>,
       \<lparr>item_id = ''c3'', name = ''eggs'', quantity = 0, expirationDate = None,
         barcode = None, regular = True\<rparr>]
     = [\<lparr>item_id = ''a1'', name = ''bread'', quantity = 2, expirationDate = None,
         barcode = None, regular = True\<rparr>,
        \<lparr>item_id = ''c3'', name = ''eggs'', quantity = 0, expirationDate = None,
         barcode = None, regular = True\<rparr>]"
  using delete_removes_exactly_that_item
    [of "[\<lparr>item_id = ''a1'', name = ''bread'', quantity = 2, expirationDate = None,
         barcode = None, regular = True\<rparr>,
       \<lparr>item_id = ''b2'', name = ''milk'', quantity = 1, expirationDate = Some ''2024-01-16'',
         barcode = None, regular = False\<rparr>,
       \<lparr>item_id = ''c3'', name = ''eggs'', quantity = 0, expirationDate = None,
         barcode = None, regular = True\<rparr>]" 1]
  by simp

theorem use_decrements_that_item_only_witness:
  "distinct (map item_id
      [\<lparr>item_id = ''a1'', name = ''bread'', quantity = 2, expirationDate = None,
         barcode = None, regular = True\<rparr>,
       \<lparr>item_id = ''c3'', name = ''eggs'', quantity = 0, expirationDate = None,
         barcode = None, regular = True\<rparr>])
   \<and> useItem ''a1''
      [\<lparr>item_id = ''a1'', name = ''bread'', quantity = 2, expirationDate = None,
         barcode = None, regular = True\<rparr>,
       \<lparr>item_id = ''c3'', name = ''eggs'', quantity = 0, expirationDate = None,
         barcode = None, regular = True\<rparr>]
     = [\<lparr>item_id = ''a1'', name = ''bread'', quantity = 1, expirationDate = None,
         barcode = None, regular = True\<rparr>,
        \<lparr>item_id = ''c3'', name = ''eggs'', quantity = 0, expirationDate = None,
         barcode = None, regular = True\<rparr>]
   \<and> useItem ''c3''
      [\<lparr>item_id = ''a1'', name = ''bread'', quantity = 2, expirationDate = None,
         barcode = None, regular = True\<rparr>,
       \<lparr>item_id = ''c3'', name = ''eggs'', quantity = 0, expirationDate = None,
         barcode = None, regular = True\<rparr>]
     = [\<lparr>item_id = ''a1'', name = ''bread'', quantity = 2, expirationDate = None,
         barcode = None, regular = True\<rparr>,
        \<lparr>item_id = ''c3'', name = ''eggs'', quantity = 0, expirationDate = None,
         barcode = None, regular = True\<rparr>]"
  (is "distinct (map item_id ?S) \<and> useItem ''a1'' ?S = ?S1 \<and> useItem ''c3'' ?S = ?S")
proof -
  have d: "distinct (map item_id ?S)" by simp
  have "0 < quantity (?S ! 0) \<and> quantity (?S ! 0) \<le> 2 ^ 53" by simp
  with use_decrements_that_item_only [of ?S 0, OF d]
  have "useItem (item_id (?S ! 0)) ?S = ?S[0 := (?S ! 0)\<lparr>quantity := quantity (?S ! 0) - 1\<rparr>]"
    by blast
  then have u0: "useItem ''a1'' ?S = ?S1" by simp
  have "quantity (?S ! 1) \<le> 0" by simp
  with use_decrements_that_item_only [of ?S 1, OF d]
  have "useItem (item_id (?S ! 1)) ?S = ?S"
    by simp
  then have u1: "useItem ''c3'' ?S = ?S" by simp
  from d u0 u1 show ?thesis by blast
qed

section \<open>Recipe feasibility\<close>

lemma find_first_eq_pos: "find_first p xs = map_option (\<lambda>i. xs ! i) (find_pos p xs)"
  by (induction xs) (simp_all add: option.map_comp comp_def split: option.splits)

lemma missing_loop_filter:
  "missing_loop stock ings acc = acc @ filter (is_missing stock) ings"
  by (induction ings arbitrary: acc) simp_all

lemma missing_of_filter: "missing_of stock r = filter (is_missing stock) (ingredients r)"
  by (simp add: missing_of_def missing_loop_filter)

lemma is_missing_pos:
  "is_missing stock ing \<longleftrightarrow>
     (case find_pos (matches ing) stock of None \<Rightarrow> True | Some i \<Rightarrow> quantity (stock ! i) \<le> 0)"
  by (simp add: is_missing_def find_first_eq_pos split: option.splits)

lemma is_missing_iff:
  "is_missing stock ing \<longleftrightarrow>
     (\<forall>it \<in> set stock. \<not> matches ing it)
     \<or> (\<exists>i. find_pos (matches ing) stock = Some i \<and> quantity (stock ! i) \<le> 0)"
proof (cases "find_pos (matches ing) stock")
  case None
  then have "\<forall>it \<in> set stock. \<not> matches ing it"
    by (simp add: find_pos_None_iff)
  with None show ?thesis by (simp add: is_missing_pos)
next
  case (Some i)
  then have "\<not> (\<forall>it \<in> set stock. \<not> matches ing it)"
    using find_pos_None_iff [of "matches ing" stock] by simp
  moreover have "is_missing stock ing \<longleftrightarrow> quantity (stock ! i) \<le> 0"
    using Some by (simp add: is_missing_pos)
  ultimately show ?thesis using Some by auto
qed

lemma is_missing_no_match:
  assumes "\<forall>it \<in> set stock. \<not> matches ing it"
  shows "is_missing stock ing"
  using assms by (simp add: is_missing_iff)

lemma is_missing_zeroed:
  assumes "find_pos (matches ing) stock = Some i"
  shows "is_missing (stock[i := (stock ! i)\<lparr>quantity := 0\<rparr>]) ing"
proof -
  let ?s = "stock[i := (stock ! i)\<lparr>quantity := 0\<rparr>]"
  from assms have i: "i < length stock" and m: "matches ing (stock ! i)"
    and first: "\<forall>j < i. \<not> matches ing (stock ! j)"
    by (simp_all add: find_pos_Some_iff)
  have "find_pos (matches ing) ?s = Some i"
    using i m first by (simp add: find_pos_Some_iff matches_def)
  with i show ?thesis by (simp add: is_missing_pos)
qed

lemma set_deleteItem_nth:
  assumes "x \<in> set (deleteItem (item_id (stock ! i)) stock)"
  shows "\<exists>j < length stock. j \<noteq> i \<and> x = stock ! j"
proof -
  from assms have "x \<in> set stock" and ne: "item_id x \<noteq> item_id (stock ! i)"
    by (simp_all add: deleteItem_def)
  then obtain j where "j < length stock" and "x = stock ! j"
    by (auto simp: in_set_conv_nth)
  with ne show ?thesis by auto
qed

lemma is_missing_only_match_deleted:
  assumes "\<forall>j < length stock. matches ing (stock ! j) \<longrightarrow> j = i"
  shows "is_missing (deleteItem (item_id (stock ! i)) stock) ing"
proof (rule is_missing_no_match, rule ballI)
  fix x
  assume "x \<in> set (deleteItem (item_id (stock ! i)) stock)"
  then obtain j where "j < length stock" and "j \<noteq> i" and "x = stock ! j"
    using set_deleteItem_nth by blast
  with assms show "\<not> matches ing x" by blast
qed

text \<open>
  C1 (amended). An ingredient of the recipe is in the missing list exactly when no
  inventory item matches it case-insensitively, or the first matching item has
  quantity at most 0; the Cook button is enabled exactly when the missing list is
  empty. Zeroing the quantity of the first matching item of an ingredient puts that
  ingredient in the missing list; deleting a matching item does so when no other item
  of the inventory matches the ingredient.
\<close>

theorem recipe_missing_iff:
  "(ing \<in> set (missing_of stock r) \<longleftrightarrow>
      ing \<in> set (ingredients r) \<and>
      ((\<forall>it \<in> set stock. \<not> matches ing it)
       \<or> (\<exists>i. find_pos (matches ing) stock = Some i \<and> quantity (stock ! i) \<le> 0)))
   \<and> (canCook (missing_of stock r) \<longleftrightarrow> set (missing_of stock r) = {})
   \<and> (ing \<in> set (ingredients r) \<and> find_pos (matches ing) stock = Some i \<longrightarrow>
        ing \<in> set (missing_of (stock[i := (stock ! i)\<lparr>quantity := 0\<rparr>]) r))
   \<and> (ing \<in> set (ingredients r) \<and> (\<forall>j < length stock. matches ing (stock ! j) \<longrightarrow> j = i) \<longrightarrow>
        ing \<in> set (missing_of (deleteItem (item_id (stock ! i)) stock) r))"
proof (intro conjI impI)
  show "ing \<in> set (missing_of stock r) \<longleftrightarrow>
      ing \<in> set (ingredients r) \<and>
      ((\<forall>it \<in> set stock. \<not> matches ing it)
       \<or> (\<exists>i. find_pos (matches ing) stock = Some i \<and> quantity (stock ! i) \<le> 0))"
    by (simp add: missing_of_filter is_missing_iff)
  show "canCook (missing_of stock r) \<longleftrightarrow> set (missing_of stock r) = {}"
    by (simp add: canCook_def)
next
  assume "ing \<in> set (ingredients r) \<and> find_pos (matches ing) stock = Some i"
  then show "ing \<in> set (missing_of (stock[i := (stock ! i)\<lparr>quantity := 0\<rparr>]) r)"
    by (simp add: missing_of_filter is_missing_zeroed)
next
  assume "ing \<in> set (ingredients r) \<and> (\<forall>j < length stock. matches ing (stock ! j) \<longrightarrow> j = i)"
  then show "ing \<in> set (missing_of (deleteItem (item_id (stock ! i)) stock) r)"
    by (simp add: missing_of_filter is_missing_only_match_deleted)
qed

section \<open>Cooking\<close>

lemma find_pos_map: "find_pos p (map f xs) = find_pos (\<lambda>x. p (f x)) xs"
  by (induction xs) simp_all

lemma find_pos_matches_names:
  "find_pos (matches ing) xs = find_pos (\<lambda>n. toLowerCase n = toLowerCase ing) (map name xs)"
  by (induction xs) (simp_all add: matches_def)

lemma name_decrement [simp]: "name (decrement it) = name it"
  by (simp add: decrement_def)

lemma map_name_mutate_found [simp]:
  "map name (mutate_found p decrement xs) = map name xs"
  by (induction xs) simp_all

lemma find_pos_after_decrement:
  "find_pos (matches ing) (mutate_found p decrement xs) = find_pos (matches ing) xs"
  by (simp add: find_pos_matches_names)

lemma length_cook_loop [simp]: "length (cook_loop ings stock) = length stock"
  by (induction ings arbitrary: stock) simp_all

lemma quantity_decrement_nonneg: "0 \<le> quantity it \<Longrightarrow> 0 \<le> quantity (decrement it)"
  by (simp add: decrement_def toDouble_nonneg)

lemma mutate_found_nonneg:
  assumes "i < length xs" and "0 \<le> quantity (xs ! i)"
  shows "0 \<le> quantity (mutate_found p decrement xs ! i)"
proof (cases "find_pos p xs")
  case None
  with assms show ?thesis by (simp add: mutate_found_pos)
next
  case (Some k)
  show ?thesis
  proof (cases "k = i")
    case True
    with Some assms show ?thesis
      by (simp add: mutate_found_pos quantity_decrement_nonneg)
  next
    case False
    with Some assms show ?thesis by (simp add: mutate_found_pos)
  qed
qed

lemma cook_loop_nonneg:
  assumes "i < length stock" and "0 \<le> quantity (stock ! i)"
  shows "0 \<le> quantity (cook_loop ings stock ! i)"
  using assms
proof (induction ings arbitrary: stock)
  case Nil
  then show ?case by simp
next
  case (Cons ing rest)
  have "0 \<le> quantity (mutate_found (matches ing) decrement stock ! i)"
    using Cons.prems by (rule mutate_found_nonneg)
  moreover have "i < length (mutate_found (matches ing) decrement stock)"
    using Cons.prems(1) by simp
  ultimately show ?case using Cons.IH by simp
qed

lemma not_missing_pos:
  assumes "\<not> is_missing stock ing"
  obtains k where "find_pos (matches ing) stock = Some k" and "0 < quantity (stock ! k)"
  using assms by (auto simp: is_missing_pos split: option.splits)

lemma cook_loop_nth:
  assumes "distinct (map toLowerCase ings)"
    and "\<forall>ing \<in> set ings. \<not> is_missing stock ing"
    and "i < length stock"
  shows "cook_loop ings stock ! i =
           (if \<exists>ing \<in> set ings. find_pos (matches ing) stock = Some i
            then (stock ! i)\<lparr>quantity := toDouble (quantity (stock ! i) - 1)\<rparr>
            else stock ! i)"
  using assms
proof (induction ings arbitrary: stock)
  case Nil
  then show ?case by simp
next
  case (Cons ing rest)
  let ?stock' = "mutate_found (matches ing) decrement stock"
  from Cons.prems(2) have "\<not> is_missing stock ing" by simp
  then obtain k where k: "find_pos (matches ing) stock = Some k"
    and qk: "0 < quantity (stock ! k)"
    by (rule not_missing_pos)
  from k have klen: "k < length stock" and mk: "matches ing (stock ! k)"
    by (simp_all add: find_pos_Some_iff)
  have stock': "?stock' = stock[k := (stock ! k)\<lparr>quantity := toDouble (quantity (stock ! k) - 1)\<rparr>]"
    using k qk by (simp add: mutate_found_pos decrement_def)
  have pos_same: "find_pos (matches a) ?stock' = find_pos (matches a) stock" for a
    by (rule find_pos_after_decrement)
  have other: "j \<noteq> k" if "a \<in> set rest" and "find_pos (matches a) stock = Some j" for a j
  proof
    assume "j = k"
    with that(2) have "matches a (stock ! k)" by (simp add: find_pos_Some_iff)
    with mk have "toLowerCase a = toLowerCase ing" by (simp add: matches_def)
    moreover from Cons.prems(1) that(1) have "toLowerCase ing \<noteq> toLowerCase a" by auto
    ultimately show False by simp
  qed
  have rest_present: "\<forall>a \<in> set rest. \<not> is_missing ?stock' a"
  proof
    fix a
    assume a: "a \<in> set rest"
    with Cons.prems(2) have "\<not> is_missing stock a" by simp
    then obtain j where j: "find_pos (matches a) stock = Some j" and qj: "0 < quantity (stock ! j)"
      by (rule not_missing_pos)
    from other [OF a j] have "?stock' ! j = stock ! j" by (simp add: stock')
    with j qj show "\<not> is_missing ?stock' a" by (simp add: is_missing_pos pos_same)
  qed
  from Cons.prems(1) have d: "distinct (map toLowerCase rest)" by simp
  from Cons.prems(3) have i': "i < length ?stock'" by simp
  have IH: "cook_loop rest ?stock' ! i =
           (if \<exists>a \<in> set rest. find_pos (matches a) stock = Some i
            then (?stock' ! i)\<lparr>quantity := toDouble (quantity (?stock' ! i) - 1)\<rparr>
            else ?stock' ! i)"
    using Cons.IH [OF d rest_present i'] by (simp add: pos_same)
  show ?case
  proof (cases "i = k")
    case True
    have "\<not> (\<exists>a \<in> set rest. find_pos (matches a) stock = Some i)"
      using other True by blast
    with IH True k klen show ?thesis by (simp add: stock')
  next
    case False
    then have "?stock' ! i = stock ! i" by (simp add: stock')
    moreover have "(\<exists>a \<in> set (ing # rest). find_pos (matches a) stock = Some i)
       \<longleftrightarrow> (\<exists>a \<in> set rest. find_pos (matches a) stock = Some i)"
      using False k by auto
    ultimately show ?thesis using IH by simp
  qed
qed

lemma recipes_distinct_ingredients:
  "list_all (\<lambda>r. distinct (map toLowerCase (ingredients r))) recipes"
  by code_simp

lemma find_first_in_set: "find_first p xs = Some y \<Longrightarrow> y \<in> set xs \<and> p y"
  by (induction xs) (auto split: if_splits)

text \<open>
  C2. For a recipe of the static list that is cookable in the current inventory, the
  Cook action leaves the number of items unchanged and changes exactly the first
  matching item of each ingredient: its quantity \<open>q\<close>, which is positive, becomes the
  double nearest to \<open>q - 1\<close>, and nothing else of it changes; every other item is
  unchanged. A matched quantity of at most \<open>2 ^ 53\<close> goes down by exactly 1. No
  quantity that was at least 0 is below 0 afterwards.
\<close>

theorem cook_decrements_each_match_by_one:
  assumes "find_first (\<lambda>r. recipe_name r = recipeName) recipes = Some r"
    and "canCook (missing_of stock r)"
  shows "length (cook recipeName stock) = length stock
     \<and> (\<forall>ing \<in> set (ingredients r). \<exists>i. find_pos (matches ing) stock = Some i
            \<and> 0 < quantity (stock ! i))
     \<and> (\<forall>i < length stock. cook recipeName stock ! i =
           (if \<exists>ing \<in> set (ingredients r). find_pos (matches ing) stock = Some i
            then (stock ! i)\<lparr>quantity := toDouble (quantity (stock ! i) - 1)\<rparr>
            else stock ! i))
     \<and> (\<forall>i < length stock.
           (\<exists>ing \<in> set (ingredients r). find_pos (matches ing) stock = Some i)
             \<and> quantity (stock ! i) \<le> 2 ^ 53
            \<longrightarrow> cook recipeName stock ! i
                  = (stock ! i)\<lparr>quantity := quantity (stock ! i) - 1\<rparr>)
     \<and> (\<forall>i < length stock. 0 \<le> quantity (stock ! i)
            \<longrightarrow> 0 \<le> quantity (cook recipeName stock ! i))"
proof -
  have cook: "cook recipeName stock = cook_loop (ingredients r) stock"
    using assms(1) by (simp add: cook_def)
  from assms(1) have "r \<in> set recipes" by (simp add: find_first_in_set)
  with recipes_distinct_ingredients have d: "distinct (map toLowerCase (ingredients r))"
    by (simp add: list_all_iff)
  from assms(2) have present: "\<forall>ing \<in> set (ingredients r). \<not> is_missing stock ing"
    by (simp add: canCook_def missing_of_filter filter_empty_conv)
  have pos: "\<exists>i. find_pos (matches ing) stock = Some i \<and> 0 < quantity (stock ! i)"
    if "ing \<in> set (ingredients r)" for ing
    using present that not_missing_pos by blast
  have nth: "\<forall>i < length stock. cook_loop (ingredients r) stock ! i =
           (if \<exists>ing \<in> set (ingredients r). find_pos (matches ing) stock = Some i
            then (stock ! i)\<lparr>quantity := toDouble (quantity (stock ! i) - 1)\<rparr>
            else stock ! i)"
    using cook_loop_nth [OF d present] by blast
  have "cook_loop (ingredients r) stock ! i
          = (stock ! i)\<lparr>quantity := quantity (stock ! i) - 1\<rparr>"
    if i: "i < length stock"
      and m: "\<exists>ing \<in> set (ingredients r). find_pos (matches ing) stock = Some i"
      and q: "quantity (stock ! i) \<le> 2 ^ 53" for i
  proof -
    from m pos have "0 < quantity (stock ! i)" by force
    with q have "toDouble (quantity (stock ! i) - 1) = quantity (stock ! i) - 1"
      by (intro toDouble_exact) simp
    with nth i m show ?thesis by simp
  qed
  then have exact: "\<forall>i < length stock.
           (\<exists>ing \<in> set (ingredients r). find_pos (matches ing) stock = Some i)
             \<and> quantity (stock ! i) \<le> 2 ^ 53
            \<longrightarrow> cook_loop (ingredients r) stock ! i
                  = (stock ! i)\<lparr>quantity := quantity (stock ! i) - 1\<rparr>"
    by blast
  note pos nth exact
  moreover have "\<forall>i < length stock. 0 \<le> quantity (stock ! i)
            \<longrightarrow> 0 \<le> quantity (cook_loop (ingredients r) stock ! i)"
    using cook_loop_nonneg by blast
  ultimately show ?thesis unfolding cook by simp
qed

text \<open>
  Where the claim as stated fails: with \<open>1e21\<close> slices of bread the Peanut Butter
  Sandwich is cookable, and cooking it leaves the bread at \<open>1e21\<close>.
\<close>

theorem cook_large_quantity_counterexample:
  "find_first (\<lambda>r. recipe_name r = ''Peanut Butter Sandwich'') recipes = Some (recipes ! 1)
   \<and> canCook (missing_of
        [\<lparr>item_id = ''a1'', name = ''Bread'', quantity = 1000000000000000000000,
           expirationDate = None, barcode = None, regular = True\<rparr>,
         \<lparr>item_id = ''b2'', name = ''peanut butter'', quantity = 1, expirationDate = None,
           barcode = None, regular = False\<rparr>,
         \<lparr>item_id = ''d4'', name = ''JELLY'', quantity = 3, expirationDate = None,
           barcode = None, regular = False\<rparr>] (recipes ! 1))
   \<and> cook ''Peanut Butter Sandwich''
        [\<lparr>item_id = ''a1'', name = ''Bread'', quantity = 1000000000000000000000,
           expirationDate = None, barcode = None, regular = True\<rparr>,
         \<lparr>item_id = ''b2'', name = ''peanut butter'', quantity = 1, expirationDate = None,
           barcode = None, regular = False\<rparr>,
         \<lparr>item_id = ''d4'', name = ''JELLY'', quantity = 3, expirationDate = None,
           barcode = None, regular = False\<rparr>]
      = [\<lparr>item_id = ''a1'', name = ''Bread'', quantity = 1000000000000000000000,
           expirationDate = None, barcode = None, regular = True\<rparr>,
         \<lparr>item_id = ''b2'', name = ''peanut butter'', quantity = 0, expirationDate = None,
           barcode = None, regular = False\<rparr>,
         \<lparr>item_id = ''d4'', name = ''JELLY'', quantity = 2, expirationDate = None,
           barcode = None, regular = False\<rparr>]"
  by code_simp

theorem cook_decrements_each_match_by_one_witness:
  "find_first (\<lambda>r. recipe_name r = ''Peanut Butter Sandwich'') recipes = Some (recipes ! 1)
   \<and> canCook (missing_of
        [\<lparr>item_id = ''a1'', name = ''Bread'', quantity = 2, expirationDate = None,
           barcode = None, regular = True\<rparr>,
         \<lparr>item_id = ''b2'', name = ''peanut butter'', quantity = 1, expirationDate = None,
           barcode = None, regular = False\<rparr>,
         \<lparr>item_id = ''c3'', name = ''milk'', quantity = 0, expirationDate = None,
           barcode = None, regular = False\<rparr>,
         \<lparr>item_id = ''d4'', name = ''JELLY'', quantity = 3, expirationDate = None,
           barcode = None, regular = False\<rparr>] (recipes ! 1))
   \<and> cook ''Peanut Butter Sandwich''
        [\<lparr>item_id = ''a1'', name = ''Bread'', quantity = 2, expirationDate = None,
           barcode = None, regular = True\<rparr>,
         \<lparr>item_id = ''b2'', name = ''peanut butter'', quantity = 1, expirationDate = None,
           barcode = None, regular = False\<rparr>,
         \<lparr>item_id = ''c3'', name = ''milk'', quantity = 0, expirationDate = None,
           barcode = None, regular = False\<rparr>,
         \<lparr>item_id = ''d4'', name = ''JELLY'', quantity = 3, expirationDate = None,
           barcode = None, regular = False\<rparr>]
      = [\<lparr>item_id = ''a1'', name = ''Bread'', quantity = 1, expirationDate = None,
           barcode = None, regular = True\<rparr>,
         \<lparr>item_id = ''b2'', name = ''peanut butter'', quantity = 0, expirationDate = None,
           barcode = None, regular = False\<rparr>,
         \<lparr>item_id = ''c3'', name = ''milk'', quantity = 0, expirationDate = None,
           barcode = None, regular = False\<rparr>,
         \<lparr>item_id = ''d4'', name = ''JELLY'', quantity = 2, expirationDate = None,
           barcode = None, regular = False\<rparr>]"
  (is "?found \<and> ?cookable \<and> cook ?n ?S = ?S'")
proof -
  have found: ?found by code_simp
  have cookable: ?cookable by code_simp
  have c0: "(\<exists>ing \<in> set (ingredients (recipes ! 1)). find_pos (matches ing) ?S = Some 0) = True"
    and c1: "(\<exists>ing \<in> set (ingredients (recipes ! 1)). find_pos (matches ing) ?S = Some 1) = True"
    and c2: "(\<exists>ing \<in> set (ingredients (recipes ! 1)). find_pos (matches ing) ?S = Some 2) = False"
    and c3: "(\<exists>ing \<in> set (ingredients (recipes ! 1)). find_pos (matches ing) ?S = Some 3) = True"
    by code_simp+
  note inst = cook_decrements_each_match_by_one [OF found cookable]
  from inst have len: "length (cook ?n ?S) = length ?S"
    by (rule conjunct1)
  from inst have nth: "\<forall>i < length ?S. cook ?n ?S ! i =
           (if \<exists>ing \<in> set (ingredients (recipes ! 1)). find_pos (matches ing) ?S = Some i
            then (?S ! i)\<lparr>quantity := toDouble (quantity (?S ! i) - 1)\<rparr>
            else ?S ! i)"
    by (rule conjunct1 [OF conjunct2 [OF conjunct2]])
  have n0: "cook ?n ?S ! 0 = ?S' ! 0"
    using nth [rule_format, of 0] unfolding c0 by (simp add: toDouble_def)
  have n1: "cook ?n ?S ! 1 = ?S' ! 1"
    using nth [rule_format, of 1] unfolding c1 by (simp add: toDouble_def)
  have n2: "cook ?n ?S ! 2 = ?S' ! 2"
    using nth [rule_format, of 2] unfolding c2 by simp
  have n3: "cook ?n ?S ! 3 = ?S' ! 3"
    using nth [rule_format, of 3] unfolding c3 by (simp add: toDouble_def)
  have "cook ?n ?S = ?S'"
  proof (rule nth_equalityI)
    show "length (cook ?n ?S) = length ?S'" using len by simp
    fix i
    assume "i < length (cook ?n ?S)"
    with len have "i = 0 \<or> i = 1 \<or> i = 2 \<or> i = 3" by auto
    with n0 n1 n2 n3 show "cook ?n ?S ! i = ?S' ! i" by blast
  qed
  with found cookable show ?thesis by simp
qed

theorem removing_one_match_counterexample:
  "ingredients (recipes ! 1) = [''bread'', ''peanut butter'', ''jelly'']
   \<and> matches ''bread'' \<lparr>item_id = ''a1'', name = ''bread'', quantity = 1,
         expirationDate = None, barcode = None, regular = False\<rparr>
   \<and> matches ''bread'' \<lparr>item_id = ''b2'', name = ''Bread'', quantity = 1,
         expirationDate = None, barcode = None, regular = False\<rparr>
   \<and> matches ''peanut butter'' \<lparr>item_id = ''c3'', name = ''peanut butter'', quantity = 1,
         expirationDate = None, barcode = None, regular = False\<rparr>
   \<and> matches ''jelly'' \<lparr>item_id = ''d4'', name = ''jelly'', quantity = 1,
         expirationDate = None, barcode = None, regular = False\<rparr>
   \<and> ''bread'' \<notin> set (missing_of
        (deleteItem ''a1''
          [\<lparr>item_id = ''a1'', name = ''bread'', quantity = 1,
             expirationDate = None, barcode = None, regular = False\<rparr>,
           \<lparr>item_id = ''b2'', name = ''Bread'', quantity = 1,
             expirationDate = None, barcode = None, regular = False\<rparr>,
           \<lparr>item_id = ''c3'', name = ''peanut butter'', quantity = 1,
             expirationDate = None, barcode = None, regular = False\<rparr>,
           \<lparr>item_id = ''d4'', name = ''jelly'', quantity = 1,
             expirationDate = None, barcode = None, regular = False\<rparr>])
        (recipes ! 1))
   \<and> ''bread'' \<notin> set (missing_of
          [\<lparr>item_id = ''a1'', name = ''bread'', quantity = 1,
             expirationDate = None, barcode = None, regular = False\<rparr>,
           \<lparr>item_id = ''b2'', name = ''Bread'', quantity = 0,
             expirationDate = None, barcode = None, regular = False\<rparr>,
           \<lparr>item_id = ''c3'', name = ''peanut butter'', quantity = 1,
             expirationDate = None, barcode = None, regular = False\<rparr>,
           \<lparr>item_id = ''d4'', name = ''jelly'', quantity = 1,
             expirationDate = None, barcode = None, regular = False\<rparr>]
        (recipes ! 1))"
  by code_simp

theorem recipe_missing_iff_witness:
  "''bread'' \<in> set (ingredients (recipes ! 1))
   \<and> find_pos (matches ''bread'')
        [\<lparr>item_id = ''a1'', name = ''Bread'', quantity = 1,
           expirationDate = None, barcode = None, regular = False\<rparr>,
         \<lparr>item_id = ''c3'', name = ''peanut butter'', quantity = 1,
           expirationDate = None, barcode = None, regular = False\<rparr>,
         \<lparr>item_id = ''d4'', name = ''jelly'', quantity = 1,
           expirationDate = None, barcode = None, regular = False\<rparr>] = Some 0
   \<and> canCook (missing_of
        [\<lparr>item_id = ''a1'', name = ''Bread'', quantity = 1,
           expirationDate = None, barcode = None, regular = False\<rparr>,
         \<lparr>item_id = ''c3'', name = ''peanut butter'', quantity = 1,
           expirationDate = None, barcode = None, regular = False\<rparr>,
         \<lparr>item_id = ''d4'', name = ''jelly'', quantity = 1,
           expirationDate = None, barcode = None, regular = False\<rparr>] (recipes ! 1))
   \<and> ''bread'' \<in> set (missing_of
        ([\<lparr>item_id = ''a1'', name = ''Bread'', quantity = 1,
           expirationDate = None, barcode = None, regular = False\<rparr>,
         \<lparr>item_id = ''c3'', name = ''peanut butter'', quantity = 1,
           expirationDate = None, barcode = None, regular = False\<rparr>,
         \<lparr>item_id = ''d4'', name = ''jelly'', quantity = 1,
           expirationDate = None, barcode = None, regular = False\<rparr>]
         [0 := \<lparr>item_id = ''a1'', name = ''Bread'', quantity = 0,
           expirationDate = None, barcode = None, regular = False\<rparr>]) (recipes ! 1))
   \<and> ''bread'' \<in> set (missing_of
        (deleteItem ''a1''
        [\<lparr>item_id = ''a1'', name = ''Bread'', quantity = 1,
           expirationDate = None, barcode = None, regular = False\<rparr>,
         \<lparr>item_id = ''c3'', name = ''peanut butter'', quantity = 1,
           expirationDate = None, barcode = None, regular = False\<rparr>,
         \<lparr>item_id = ''d4'', name = ''jelly'', quantity = 1,
           expirationDate = None, barcode = None, regular = False\<rparr>]) (recipes ! 1))"
  (is "?ing \<and> find_pos ?p ?S = Some 0 \<and> ?can \<and> ?zeroed \<and> ?deleted")
proof -
  have ing: ?ing by code_simp
  have pos: "find_pos ?p ?S = Some 0" by code_simp
  have can: ?can by code_simp
  have m1: "\<not> matches ''bread'' (?S ! 1)" and m2: "\<not> matches ''bread'' (?S ! 2)"
    by code_simp+
  have only: "\<forall>j < length ?S. matches ''bread'' (?S ! j) \<longrightarrow> j = 0"
  proof (intro allI impI)
    fix j
    assume "j < length ?S" and m: "matches ''bread'' (?S ! j)"
    then have "j = 0 \<or> j = 1 \<or> j = 2" by auto
    with m m1 m2 show "j = 0" by blast
  qed
  note inst = recipe_missing_iff [of "''bread''" ?S "recipes ! 1" 0]
  from inst ing pos have "''bread'' \<in> set (missing_of (?S[0 := (?S ! 0)\<lparr>quantity := 0\<rparr>]) (recipes ! 1))"
    by blast
  then have zeroed: ?zeroed by simp
  from inst ing only have "''bread'' \<in> set (missing_of (deleteItem (item_id (?S ! 0)) ?S) (recipes ! 1))"
    by blast
  then have deleted: ?deleted by simp
  from ing pos can zeroed deleted show ?thesis by blast
qed

section \<open>Expiry classification\<close>

lemma msPerDay_pos: "0 < msPerDay"
  by (simp add: msPerDay_def)

subsection \<open>The calendar\<close>

text \<open>
  \<open>YearFromDay n\<close> is the year of day \<open>n\<close>: the one whose first day is at or before
  \<open>n\<close> and whose successor's first day is after \<open>n\<close>.
\<close>

lemma DayFromYear_estimate:
  "10000 * DayFromYear (1970 + k) \<le> 3652425 * k + 14725"
  "3652425 * k - 12650 \<le> 10000 * DayFromYear (1970 + k)"
  unfolding DayFromYear_def by (simp_all; linarith)+

lemma YearFromDay_bounds:
  "DayFromYear (YearFromDay n) \<le> n \<and> n < DayFromYear (YearFromDay n + 1)"
proof -
  define k where "k = (10000 * n) div 3652425"
  have k1: "3652425 * k \<le> 10000 * n" and k2: "10000 * n < 3652425 * k + 3652425"
    unfolding k_def by linarith+
  have lo: "DayFromYear (1970 + k - 1) \<le> n"
    using DayFromYear_estimate(1) [of "k - 1"] k1 by simp
  have hi: "n < DayFromYear (1970 + k + 2)"
    using DayFromYear_estimate(2) [of "k + 2"] k2 by (simp add: add.assoc)
  show ?thesis
    using lo hi unfolding YearFromDay_def k_def [symmetric] Let_def
    by (simp add: add.assoc)
qed

lemma DayFromYear_less: "DayFromYear y < DayFromYear (y + 1)"
  using DayFromYear_estimate(1) [of "y - 1970"] DayFromYear_estimate(2) [of "y - 1970 + 1"]
  by (simp add: add.commute)

lemma DayFromYear_mono: "a \<le> b \<Longrightarrow> DayFromYear a \<le> DayFromYear b"
proof (induction rule: int_le_induct [where k = b])
  case base
  show ?case by simp
next
  case (step i)
  have "DayFromYear (i - 1) < DayFromYear (i - 1 + 1)" by (rule DayFromYear_less)
  with step show ?case by simp
qed

lemma YearFromDay_unique:
  assumes "DayFromYear y \<le> n" and "n < DayFromYear (y + 1)"
  shows "YearFromDay n = y"
proof (rule antisym)
  show "YearFromDay n \<le> y"
  proof (rule ccontr)
    assume "\<not> YearFromDay n \<le> y"
    then have "y + 1 \<le> YearFromDay n" by simp
    then have "DayFromYear (y + 1) \<le> DayFromYear (YearFromDay n)" by (rule DayFromYear_mono)
    with YearFromDay_bounds [of n] assms(2) show False by simp
  qed
  show "y \<le> YearFromDay n"
  proof (rule ccontr)
    assume "\<not> y \<le> YearFromDay n"
    then have "YearFromDay n + 1 \<le> y" by simp
    then have "DayFromYear (YearFromDay n + 1) \<le> DayFromYear y" by (rule DayFromYear_mono)
    with YearFromDay_bounds [of n] assms(1) show False by simp
  qed
qed

lemma MonthFromDayInYear_range:
  "0 \<le> MonthFromDayInYear leap d \<and> MonthFromDayInYear leap d \<le> 11"
proof -
  have "length (filter (\<lambda>m. monthStart leap m \<le> d) [1, 2, 3, 4, 5, 6, 7, 8, 9, 10, 11])
          \<le> length [1, 2, 3, 4, 5, 6, 7, 8, 9, 10, 11 :: int]"
    by (rule length_filter_le)
  then show ?thesis by (simp add: MonthFromDayInYear_def)
qed

text \<open>
  Rebuilding a day from its own year, month and day of the month gives the day back.
\<close>

lemma MakeDay_fields:
  "MakeDay (YearFromDay n)
     (MonthFromDayInYear (InLeapYear (YearFromDay n)) (n - DayFromYear (YearFromDay n)))
     (n - DayFromYear (YearFromDay n)
        - monthStart (InLeapYear (YearFromDay n))
            (MonthFromDayInYear (InLeapYear (YearFromDay n)) (n - DayFromYear (YearFromDay n)))
        + 1) = n"
proof -
  define y where "y = YearFromDay n"
  define m where "m = MonthFromDayInYear (InLeapYear y) (n - DayFromYear y)"
  have "0 \<le> m \<and> m \<le> 11" unfolding m_def by (rule MonthFromDayInYear_range)
  then have "m div 12 = 0" and "m mod 12 = m" by simp_all
  then show ?thesis
    unfolding y_def [symmetric] m_def [symmetric] by (simp add: MakeDay_def)
qed

lemma calendar_examples:
  "YearFromDay 19737 = 2024"
  "MonthFromDayInYear (InLeapYear 2024) (19737 - DayFromYear 2024) = 0"
  "MakeDay 2024 0 15 = 19737"
  "MakeDay 2000 1 29 = 11016"
  "MakeDay 2000 2 1 = 11017"
  "MakeDay 1900 2 1 = - 25508"
  "MakeDay 1970 0 1 = 0"
  "MakeDay 275760 8 13 = 100000000"
  "YearFromDay (- 701100) = 50"
  "MakeDay 50 5 15 = - 701100"
  "MakeDay 1950 5 15 = - 7140"
  by code_simp+

subsection \<open>daysBetween\<close>

lemma Date_UTC_ordinary:
  assumes "ordinaryDate tza t"
  shows "Date_UTC (getFullYear tza t) (getMonth tza t) (getDate tza t)
           = Some (localDay tza t * msPerDay)"
proof -
  from assms have y: "\<not> (0 \<le> getFullYear tza t \<and> getFullYear tza t \<le> 99)"
    and n: "\<bar>localDay tza t\<bar> \<le> 100000000"
    by (simp_all add: ordinaryDate_def)
  have day: "MakeDay (getFullYear tza t) (getMonth tza t) (getDate tza t) = localDay tza t"
    unfolding getFullYear_def getMonth_def getDate_def Let_def by (rule MakeDay_fields)
  from n have "\<bar>localDay tza t * msPerDay\<bar> \<le> 8640000000000000"
    by (simp add: abs_mult msPerDay_def)
  then have "TimeClip (localDay tza t * msPerDay) = Some (localDay tza t * msPerDay)"
    by (simp add: TimeClip_def)
  moreover from y have "(if 0 \<le> getFullYear tza t \<and> getFullYear tza t \<le> 99
      then 1900 + getFullYear tza t else getFullYear tza t) = getFullYear tza t"
    by simp
  ultimately show ?thesis unfolding Date_UTC_def Let_def by (simp only: day)
qed

lemma daysBetween_localDay:
  assumes "ordinaryDate tza s" and "ordinaryDate tza e"
  shows "daysBetween tza (Some s) (Some e) = Some (localDay tza e - localDay tza s)"
proof -
  have "(localDay tza e * msPerDay - localDay tza s * msPerDay) div msPerDay
          = localDay tza e - localDay tza s"
    using msPerDay_pos by (simp add: left_diff_distrib [symmetric])
  then show ?thesis
    by (simp add: daysBetween_def Date_UTC_ordinary [OF assms(1)] Date_UTC_ordinary [OF assms(2)])
qed

lemma daysBetween_invalid: "daysBetween tza start None = None"
  by (simp add: daysBetween_def split: option.splits)

lemma localDay_utc:
  assumes "\<forall>t. tza t = 0"
  shows "localDay tza e - localDay tza s = spec_utcDaysBetween s e"
  using assms by (simp add: localDay_def spec_utcDaysBetween_def)

text \<open>
  A date of the first century: \<open>0050-06-15\<close> (local day -701100) is rebuilt by
  \<open>Date.UTC\<close> as 1950-06-15 (day -7140), so that on 2024-01-10 (day 19732) the
  item is listed with -26872 days left, not -720832.
\<close>

lemma first_century_example:
  "localDay (\<lambda>t. 0) (- 60575040000000) = - 701100"
  "localDay (\<lambda>t. 0) 1704888000000 = 19732"
  "getFullYear (\<lambda>t. 0) (- 60575040000000) = 50"
  "getMonth (\<lambda>t. 0) (- 60575040000000) = 5"
  "getDate (\<lambda>t. 0) (- 60575040000000) = 15"
  "daysBetween (\<lambda>t. 0) (Some 1704888000000) (Some (- 60575040000000)) = Some (- 26872)"
  by code_simp+

text \<open>What the three passes compute for one item: its output pair, if it has one.\<close>

lemma set_getSoonExpiringItems_general:
  "(it, d) \<in> set (getSoonExpiringItems newDate tza now stock) \<longleftrightarrow>
     it \<in> set stock \<and> hasExpirationDate it
     \<and> d = daysBetween tza (Some now) (expireDate newDate it)
     \<and> withinFiveDays (it, d)"
  by (auto simp: getSoonExpiringItems_def)

lemma map_fst_getSoonExpiringItems:
  "map fst (getSoonExpiringItems newDate tza now stock) =
     filter (\<lambda>it. hasExpirationDate it
               \<and> withinFiveDays (it, daysBetween tza (Some now) (expireDate newDate it))) stock"
  by (induction stock) (simp_all add: getSoonExpiringItems_def)

lemma soon_entry_cases:
  assumes "ordinaryDate tza now"
    and "\<forall>e. expireDate newDate it = Some e \<longrightarrow> ordinaryDate tza e"
  shows
  "(hasExpirationDate it \<and> withinFiveDays (it, daysBetween tza (Some now) (expireDate newDate it)))
     \<longleftrightarrow> (\<exists>s e. expirationDate it = Some s \<and> s \<noteq> [] \<and> newDate s = Some e
                 \<and> localDay tza e - localDay tza now \<le> 5)"
proof (cases "expirationDate it")
  case None
  then show ?thesis by (simp add: hasExpirationDate_def)
next
  case (Some s)
  show ?thesis
  proof (cases "newDate s")
    case None
    with Some show ?thesis
      by (simp add: hasExpirationDate_def withinFiveDays_def expireDate_def
            daysBetween_invalid)
  next
    case e: (Some e)
    with Some assms(2) have "ordinaryDate tza e" by (simp add: expireDate_def)
    with assms(1) have "daysBetween tza (Some now) (Some e)
        = Some (localDay tza e - localDay tza now)"
      by (rule daysBetween_localDay)
    with e Some show ?thesis
      by (simp add: hasExpirationDate_def withinFiveDays_def expireDate_def)
  qed
qed

lemma soon_entry_days:
  assumes "expirationDate it = Some s" and "newDate s = Some e"
    and "ordinaryDate tza now" and "ordinaryDate tza e"
  shows "daysBetween tza (Some now) (expireDate newDate it)
           = Some (localDay tza e - localDay tza now)"
  using assms by (simp add: expireDate_def daysBetween_localDay)

lemma set_getSoonExpiringItems:
  assumes "ordinaryDate tza now"
    and "\<forall>e. expireDate newDate it = Some e \<longrightarrow> ordinaryDate tza e"
  shows "(it, d) \<in> set (getSoonExpiringItems newDate tza now stock) \<longleftrightarrow>
     it \<in> set stock \<and>
     (\<exists>s e. expirationDate it = Some s \<and> s \<noteq> [] \<and> newDate s = Some e
        \<and> d = Some (localDay tza e - localDay tza now)
        \<and> localDay tza e - localDay tza now \<le> 5)"
    (is "?L \<longleftrightarrow> ?R")
proof
  assume ?L
  then have mem: "it \<in> set stock" and has: "hasExpirationDate it"
    and d: "d = daysBetween tza (Some now) (expireDate newDate it)"
    and w: "withinFiveDays (it, d)"
    unfolding set_getSoonExpiringItems_general by blast+
  from has w d obtain s e where se: "expirationDate it = Some s" "s \<noteq> []" "newDate s = Some e"
    "localDay tza e - localDay tza now \<le> 5"
    using soon_entry_cases [OF assms] by auto
  from se assms(2) have "ordinaryDate tza e" by (simp add: expireDate_def)
  with d se assms(1) have "d = Some (localDay tza e - localDay tza now)"
    by (simp add: soon_entry_days)
  with mem se show ?R by blast
next
  assume ?R
  then obtain s e where mem: "it \<in> set stock"
    and se: "expirationDate it = Some s" "s \<noteq> []" "newDate s = Some e"
    and d: "d = Some (localDay tza e - localDay tza now)"
    and le: "localDay tza e - localDay tza now \<le> 5"
    by blast
  from se have has: "hasExpirationDate it" by (simp add: hasExpirationDate_def)
  from se assms(2) have "ordinaryDate tza e" by (simp add: expireDate_def)
  with se d assms(1) have d': "d = daysBetween tza (Some now) (expireDate newDate it)"
    by (simp add: soon_entry_days)
  from d le have "withinFiveDays (it, d)" by (simp add: withinFiveDays_def)
  with mem has d' show ?L by (simp add: set_getSoonExpiringItems_general)
qed

lemma getSoonExpiringItems_dated:
  assumes "(it, d) \<in> set (getSoonExpiringItems newDate tza now stock)"
  shows "it \<in> set stock
     \<and> (\<exists>s e. expirationDate it = Some s \<and> s \<noteq> [] \<and> newDate s = Some e)
     \<and> (\<exists>n. d = Some n \<and> n \<le> 5)
     \<and> d = daysBetween tza (Some now) (expireDate newDate it)"
proof -
  from assms have mem: "it \<in> set stock" and has: "hasExpirationDate it"
    and d: "d = daysBetween tza (Some now) (expireDate newDate it)"
    and w: "withinFiveDays (it, d)"
    unfolding set_getSoonExpiringItems_general by blast+
  from has obtain s where s: "expirationDate it = Some s" "s \<noteq> []"
    by (auto simp: hasExpirationDate_def split: option.splits)
  from w obtain n where n: "d = Some n" "n \<le> 5"
    by (auto simp: withinFiveDays_def split: option.splits)
  from n d s obtain e where "newDate s = Some e"
    by (cases "newDate s") (simp_all add: expireDate_def daysBetween_invalid)
  with mem s n d show ?thesis by blast
qed

lemma getSoonExpiringItems_order:
  "map fst (getSoonExpiringItems newDate tza now stock) =
     filter (\<lambda>it. \<exists>d. (it, d) \<in> set (getSoonExpiringItems newDate tza now stock)) stock"
  unfolding map_fst_getSoonExpiringItems
  by (rule filter_cong) (auto simp: set_getSoonExpiringItems_general)

text \<open>
  C3 (amended). Dates are taken with a local year outside 0 to 99 and a local day
  within 100 000 000 days of the epoch (\<open>ordinaryDate\<close>), for now and for the
  expiration dates. Then an item is in the soon to expire list exactly when its
  expiration date is neither null nor empty, parses to a valid date, and the
  difference between the local calendar day of that date and the local calendar day
  of now is at most 5 (negative differences included); the output pair carries that
  difference. An item whose expiration date falls on the local calendar day 5 days
  after today's is included, and one 6 days after is not. Where local time is UTC, the
  difference is the difference in UTC calendar days.

  For all dates: every item of the output is an item of the inventory with an
  expiration date that is neither null nor empty and parses, its pair carries the
  result of \<open>daysBetween\<close>, a number that is at most 5; and the output follows the
  order of the inventory.
\<close>

theorem soon_expiring_iff:
  "(ordinaryDate tza now \<and> (\<forall>e. expireDate newDate it = Some e \<longrightarrow> ordinaryDate tza e) \<longrightarrow>
      ((it, d) \<in> set (getSoonExpiringItems newDate tza now stock) \<longleftrightarrow>
        it \<in> set stock \<and>
        (\<exists>s e. expirationDate it = Some s \<and> s \<noteq> [] \<and> newDate s = Some e
           \<and> d = Some (localDay tza e - localDay tza now)
           \<and> localDay tza e - localDay tza now \<le> 5)))
   \<and> ((it, d) \<in> set (getSoonExpiringItems newDate tza now stock) \<longrightarrow>
        it \<in> set stock
        \<and> (\<exists>s e. expirationDate it = Some s \<and> s \<noteq> [] \<and> newDate s = Some e)
        \<and> (\<exists>n. d = Some n \<and> n \<le> 5)
        \<and> d = daysBetween tza (Some now) (expireDate newDate it))
   \<and> map fst (getSoonExpiringItems newDate tza now stock) =
       filter (\<lambda>it. \<exists>d. (it, d) \<in> set (getSoonExpiringItems newDate tza now stock)) stock
   \<and> (ordinaryDate tza now
        \<and> (\<forall>it \<in> set stock. \<forall>e. expireDate newDate it = Some e \<longrightarrow> ordinaryDate tza e) \<longrightarrow>
        map fst (getSoonExpiringItems newDate tza now stock) =
          filter (\<lambda>it. \<exists>s e. expirationDate it = Some s \<and> s \<noteq> [] \<and> newDate s = Some e
                    \<and> localDay tza e - localDay tza now \<le> 5) stock)
   \<and> (it \<in> set stock \<and> expirationDate it = Some s \<and> s \<noteq> [] \<and> newDate s = Some e
        \<and> ordinaryDate tza now \<and> ordinaryDate tza e
        \<and> localDay tza e = localDay tza now + 5
       \<longrightarrow> (it, Some 5) \<in> set (getSoonExpiringItems newDate tza now stock))
   \<and> (expirationDate it = Some s \<and> newDate s = Some e
        \<and> ordinaryDate tza now \<and> ordinaryDate tza e
        \<and> localDay tza e = localDay tza now + 6
       \<longrightarrow> it \<notin> fst ` set (getSoonExpiringItems newDate tza now stock))
   \<and> ((\<forall>t. tza t = 0) \<longrightarrow>
        localDay tza e - localDay tza now = spec_utcDaysBetween now e)"
proof (intro conjI impI)
  assume "ordinaryDate tza now \<and> (\<forall>e. expireDate newDate it = Some e \<longrightarrow> ordinaryDate tza e)"
  then show "(it, d) \<in> set (getSoonExpiringItems newDate tza now stock) \<longleftrightarrow>
      it \<in> set stock \<and>
      (\<exists>s e. expirationDate it = Some s \<and> s \<noteq> [] \<and> newDate s = Some e
         \<and> d = Some (localDay tza e - localDay tza now)
         \<and> localDay tza e - localDay tza now \<le> 5)"
    by (intro set_getSoonExpiringItems) simp_all
next
  assume "(it, d) \<in> set (getSoonExpiringItems newDate tza now stock)"
  then have r: "it \<in> set stock
        \<and> (\<exists>s e. expirationDate it = Some s \<and> s \<noteq> [] \<and> newDate s = Some e)
        \<and> (\<exists>n. d = Some n \<and> n \<le> 5)
        \<and> d = daysBetween tza (Some now) (expireDate newDate it)"
    by (rule getSoonExpiringItems_dated)
  from r show "it \<in> set stock" by (rule conjunct1)
  from r show "\<exists>s e. expirationDate it = Some s \<and> s \<noteq> [] \<and> newDate s = Some e"
    by (rule conjunct1 [OF conjunct2])
  from r show "\<exists>n. d = Some n \<and> n \<le> 5"
    by (rule conjunct1 [OF conjunct2 [OF conjunct2]])
  from r show "d = daysBetween tza (Some now) (expireDate newDate it)"
    by (rule conjunct2 [OF conjunct2 [OF conjunct2]])
next
  show "map fst (getSoonExpiringItems newDate tza now stock) =
       filter (\<lambda>it. \<exists>d. (it, d) \<in> set (getSoonExpiringItems newDate tza now stock)) stock"
    by (rule getSoonExpiringItems_order)
next
  assume a: "ordinaryDate tza now
        \<and> (\<forall>it \<in> set stock. \<forall>e. expireDate newDate it = Some e \<longrightarrow> ordinaryDate tza e)"
  have "filter (\<lambda>it. hasExpirationDate it
               \<and> withinFiveDays (it, daysBetween tza (Some now) (expireDate newDate it))) stock
      = filter (\<lambda>it. \<exists>s e. expirationDate it = Some s \<and> s \<noteq> [] \<and> newDate s = Some e
                    \<and> localDay tza e - localDay tza now \<le> 5) stock"
  proof (rule filter_cong [OF refl])
    fix x
    assume "x \<in> set stock"
    with a have "ordinaryDate tza now"
      and "\<forall>e. expireDate newDate x = Some e \<longrightarrow> ordinaryDate tza e"
      by blast+
    then show "(hasExpirationDate x
               \<and> withinFiveDays (x, daysBetween tza (Some now) (expireDate newDate x)))
      = (\<exists>s e. expirationDate x = Some s \<and> s \<noteq> [] \<and> newDate s = Some e
                    \<and> localDay tza e - localDay tza now \<le> 5)"
      by (rule soon_entry_cases)
  qed
  then show "map fst (getSoonExpiringItems newDate tza now stock) =
          filter (\<lambda>it. \<exists>s e. expirationDate it = Some s \<and> s \<noteq> [] \<and> newDate s = Some e
                    \<and> localDay tza e - localDay tza now \<le> 5) stock"
    by (simp only: map_fst_getSoonExpiringItems)
next
  assume a: "it \<in> set stock \<and> expirationDate it = Some s \<and> s \<noteq> [] \<and> newDate s = Some e
        \<and> ordinaryDate tza now \<and> ordinaryDate tza e
        \<and> localDay tza e = localDay tza now + 5"
  then have "daysBetween tza (Some now) (expireDate newDate it) = Some 5"
    by (simp add: soon_entry_days)
  with a show "(it, Some 5) \<in> set (getSoonExpiringItems newDate tza now stock)"
    by (simp add: set_getSoonExpiringItems_general hasExpirationDate_def withinFiveDays_def)
next
  assume a: "expirationDate it = Some s \<and> newDate s = Some e
        \<and> ordinaryDate tza now \<and> ordinaryDate tza e
        \<and> localDay tza e = localDay tza now + 6"
  then have six: "daysBetween tza (Some now) (expireDate newDate it) = Some 6"
    by (simp add: soon_entry_days)
  show "it \<notin> fst ` set (getSoonExpiringItems newDate tza now stock)"
  proof
    assume "it \<in> fst ` set (getSoonExpiringItems newDate tza now stock)"
    then obtain d where "(it, d) \<in> set (getSoonExpiringItems newDate tza now stock)"
      by auto
    then have "d = daysBetween tza (Some now) (expireDate newDate it)"
      and "withinFiveDays (it, d)"
      unfolding set_getSoonExpiringItems_general by blast+
    with six show False by (simp add: withinFiveDays_def)
  qed
next
  assume "\<forall>t. tza t = 0"
  then show "localDay tza e - localDay tza now = spec_utcDaysBetween now e"
    by (rule localDay_utc)
qed

theorem utc_days_counterexample:
  "getSoonExpiringItems (\<lambda>s. if s = ''2024-01-16'' then Some 1705363200000 else None)
      (\<lambda>t. 32400000) 1704909600000
      [\<lparr>item_id = ''a1'', name = ''milk'', quantity = 1,
         expirationDate = Some ''2024-01-16'', barcode = None, regular = False\<rparr>]
    = [(\<lparr>item_id = ''a1'', name = ''milk'', quantity = 1,
         expirationDate = Some ''2024-01-16'', barcode = None, regular = False\<rparr>, Some 5)]
   \<and> spec_utcDaysBetween 1704909600000 1705363200000 = 6"
  by code_simp

theorem soon_expiring_iff_witness:
  "ordinaryDate (\<lambda>t. - 18000000) 1704906000000
   \<and> ordinaryDate (\<lambda>t. - 18000000) 1705363200000
   \<and> ordinaryDate (\<lambda>t. - 18000000) 1705449600000
   \<and> localDay (\<lambda>t. - 18000000) 1705363200000 = localDay (\<lambda>t. - 18000000) 1704906000000 + 5
   \<and> (\<lparr>item_id = ''a1'', name = ''milk'', quantity = 1,
         expirationDate = Some ''2024-01-16'', barcode = None, regular = False\<rparr>, Some 5)
      \<in> set (getSoonExpiringItems
          (\<lambda>s. if s = ''2024-01-16'' then Some 1705363200000
               else if s = ''2024-01-17'' then Some 1705449600000 else None)
          (\<lambda>t. - 18000000) 1704906000000
          [\<lparr>item_id = ''a1'', name = ''milk'', quantity = 1,
             expirationDate = Some ''2024-01-16'', barcode = None, regular = False\<rparr>,
           \<lparr>item_id = ''b2'', name = ''eggs'', quantity = 1,
             expirationDate = Some ''2024-01-17'', barcode = None, regular = False\<rparr>])
   \<and> localDay (\<lambda>t. - 18000000) 1705449600000 = localDay (\<lambda>t. - 18000000) 1704906000000 + 6
   \<and> \<lparr>item_id = ''b2'', name = ''eggs'', quantity = 1,
         expirationDate = Some ''2024-01-17'', barcode = None, regular = False\<rparr>
      \<notin> fst ` set (getSoonExpiringItems
          (\<lambda>s. if s = ''2024-01-16'' then Some 1705363200000
               else if s = ''2024-01-17'' then Some 1705449600000 else None)
          (\<lambda>t. - 18000000) 1704906000000
          [\<lparr>item_id = ''a1'', name = ''milk'', quantity = 1,
             expirationDate = Some ''2024-01-16'', barcode = None, regular = False\<rparr>,
           \<lparr>item_id = ''b2'', name = ''eggs'', quantity = 1,
             expirationDate = Some ''2024-01-17'', barcode = None, regular = False\<rparr>])"
  (is "?onow \<and> ?o5 \<and> ?o6 \<and> ?five
        \<and> (?milk, Some 5) \<in> set (getSoonExpiringItems ?ND ?TZ ?NOW ?S) \<and> ?six \<and> ?eggs \<notin> _")
proof -
  have onow: ?onow and o5: ?o5 and o6: ?o6
    by code_simp+
  have five: ?five and six: ?six
    by (simp_all add: localDay_def msPerDay_def)
  have pre5: "?milk \<in> set ?S \<and> expirationDate ?milk = Some ''2024-01-16'' \<and> ''2024-01-16'' \<noteq> []
      \<and> ?ND ''2024-01-16'' = Some 1705363200000
      \<and> ordinaryDate ?TZ ?NOW \<and> ordinaryDate ?TZ 1705363200000
      \<and> localDay ?TZ 1705363200000 = localDay ?TZ ?NOW + 5"
    using five onow o5 by simp
  have pre6: "expirationDate ?eggs = Some ''2024-01-17''
      \<and> ?ND ''2024-01-17'' = Some 1705449600000
      \<and> ordinaryDate ?TZ ?NOW \<and> ordinaryDate ?TZ 1705449600000
      \<and> localDay ?TZ 1705449600000 = localDay ?TZ ?NOW + 6"
    using six onow o6 by simp
  have in5: "(?milk, Some 5) \<in> set (getSoonExpiringItems ?ND ?TZ ?NOW ?S)"
    using soon_expiring_iff [where it = ?milk and newDate = ?ND and tza = ?TZ and now = ?NOW
        and stock = ?S and s = "''2024-01-16''" and e = 1705363200000] pre5
    by blast
  have out6: "?eggs \<notin> fst ` set (getSoonExpiringItems ?ND ?TZ ?NOW ?S)"
    using soon_expiring_iff [where it = ?eggs and newDate = ?ND and tza = ?TZ and now = ?NOW
        and stock = ?S and s = "''2024-01-17''" and e = 1705449600000] pre6
    by blast
  from onow o5 o6 five in5 six out6 show ?thesis by blast
qed

section \<open>Cheapest store\<close>

lemma first_min_snoc:
  assumes "first_min c ys"
  shows "first_min (if price x < price c then x else c) (ys @ [x])"
proof -
  from assms obtain i where i: "i < length ys" "c = ys ! i"
    and le: "\<forall>j < length ys. price c \<le> price (ys ! j)"
    and lt: "\<forall>j < i. price c < price (ys ! j)"
    by (auto simp: first_min_def)
  show ?thesis
  proof (cases "price x < price c")
    case True
    have "\<forall>j < length (ys @ [x]). price x \<le> price ((ys @ [x]) ! j)"
      using True le by (auto simp: nth_append less_Suc_eq intro: less_imp_le order.strict_trans2)
    moreover have "\<forall>j < length ys. price x < price ((ys @ [x]) ! j)"
      using True le by (auto simp: nth_append intro: order.strict_trans2)
    ultimately have "length ys < length (ys @ [x]) \<and> x = (ys @ [x]) ! length ys
        \<and> (\<forall>j < length (ys @ [x]). price x \<le> price ((ys @ [x]) ! j))
        \<and> (\<forall>j < length ys. price x < price ((ys @ [x]) ! j))"
      by simp
    then have "first_min x (ys @ [x])"
      unfolding first_min_def by blast
    with True show ?thesis by simp
  next
    case False
    have "\<forall>j < length (ys @ [x]). price c \<le> price ((ys @ [x]) ! j)"
      using False le by (auto simp: nth_append less_Suc_eq)
    moreover have "\<forall>j < i. price c < price ((ys @ [x]) ! j)"
      using lt i by (auto simp: nth_append)
    moreover have "i < length (ys @ [x])" "c = (ys @ [x]) ! i"
      using i by (simp_all add: nth_append)
    ultimately have "first_min c (ys @ [x])"
      unfolding first_min_def by blast
    with False show ?thesis by simp
  qed
qed

lemma cheapest_loop_first_min:
  assumes "first_min c ys"
  shows "first_min (cheapest_loop c xs) (ys @ xs)"
  using assms
proof (induction xs arbitrary: c ys)
  case Nil
  then show ?case by simp
next
  case (Cons x xs)
  from first_min_snoc [OF Cons.prems]
  have "first_min (cheapest_loop (if price x < price c then x else c) xs) ((ys @ [x]) @ xs)"
    by (rule Cons.IH)
  then show ?case by simp
qed

lemma cheapestOf_first_min:
  "cheapestOf list = (if list = [] then None else Some (cheapest_loop (hd list) (tl list)))"
  "list \<noteq> [] \<Longrightarrow> first_min (cheapest_loop (hd list) (tl list)) list"
proof -
  show "cheapestOf list = (if list = [] then None else Some (cheapest_loop (hd list) (tl list)))"
    by (cases list) (simp_all add: cheapestOf_def)
  assume "list \<noteq> []"
  then obtain x xs where list: "list = x # xs" by (cases list) auto
  have "first_min x [x]" by (simp add: first_min_def)
  then have "first_min (cheapest_loop x xs) ([x] @ xs)" by (rule cheapest_loop_first_min)
  with list show "first_min (cheapest_loop (hd list) (tl list)) list" by simp
qed

lemma getCheapestStoreFor_own:
  assumes "map_of priceData (toLowerCase itemName) = Some list"
  shows "getCheapestStoreFor itemName = Inr (cheapestOf list)"
  using assms by (simp add: getCheapestStoreFor_def priceData_get_def)

lemma getCheapestStoreFor_absent:
  assumes "map_of priceData (toLowerCase itemName) = None"
    and "map_of objectPrototype (toLowerCase itemName) = None"
  shows "getCheapestStoreFor itemName = Inr None"
  using assms by (simp add: getCheapestStoreFor_def priceData_get_def)

lemma cheapestOf_examples:
  "cheapestOf [\<lparr>store = ''A'', price = 1.5\<rparr>, \<lparr>store = ''B'', price = 1.4\<rparr>,
      \<lparr>store = ''C'', price = 1.6\<rparr>] = Some \<lparr>store = ''B'', price = 1.4\<rparr>"
  "cheapestOf [\<lparr>store = ''A'', price = 1.0\<rparr>, \<lparr>store = ''B'', price = 1.0\<rparr>]
     = Some \<lparr>store = ''A'', price = 1.0\<rparr>"
  by (simp_all add: cheapestOf_def)

text \<open>
  C4. The lookup is to return null for every name without an entry in the price
  table. The table has no entry for \<open>constructor\<close> (nor for \<open>__proto__\<close>), yet the
  lookup does not return null there: \<open>priceData[...]\<close> finds the value inherited from
  \<open>Object.prototype\<close>, and \<open>list.forEach\<close> throws a TypeError.
\<close>

theorem cheapest_store_inherited_name:
  "map_of priceData (toLowerCase ''Constructor'') = None
   \<and> getCheapestStoreFor ''Constructor'' = Inl TypeError
   \<and> map_of priceData (toLowerCase ''__proto__'') = None
   \<and> getCheapestStoreFor ''__proto__'' = Inl TypeError"
  by code_simp

section \<open>Adding an item\<close>



section \<open>Start-up with a malformed stored inventory\<close>

text \<open>
  C9. When the stored inventory text does not parse, the exception is thrown inside
  the \<open>try\<close> and caught there: start-up yields a value, the empty array, which is
  the empty inventory.
\<close>

theorem malformed_inventory_falls_back:
  assumes "ls ''inventory'' = Some stored" and "JSON_parse stored = Inl e"
  shows "readStoredInventory ls = (if stored = [] then Inr None else Inl e)
     \<and> loadInventory ls = JArray []
     \<and> inventory_of_json (loadInventory ls) = Some []"
  using assms
  by (simp add: readStoredInventory_def loadInventory_def inventory_of_json_def)

theorem malformed_inventory_falls_back_witness:
  "(Map.empty(''inventory'' \<mapsto> ''[{'')) ''inventory'' = Some ''[{''
   \<and> JSON_parse ''[{'' = Inl SyntaxError
   \<and> readStoredInventory (Map.empty(''inventory'' \<mapsto> ''[{'')) = Inl SyntaxError
   \<and> loadInventory (Map.empty(''inventory'' \<mapsto> ''[{'')) = JArray []"
proof -
  have p: "JSON_parse ''[{'' = Inl SyntaxError" by code_simp
  have g: "(Map.empty(''inventory'' \<mapsto> ''[{'')) ''inventory'' = Some ''[{''" by simp
  from malformed_inventory_falls_back
         [where ls = "Map.empty(''inventory'' \<mapsto> ''[{'')" and stored = "''[{''"
            and e = SyntaxError, OF g p] p g
  show ?thesis by simp
qed

section \<open>Saving and reloading\<close>

subsection \<open>Strings\<close>







subsection \<open>Integers\<close>
















subsection \<open>Values\<close>
















subsection \<open>Objects\<close>





lemma isWS_separators: "\<not> isWS (CHR '','')" "\<not> isWS (CHR ''}'')" "\<not> isWS (CHR '']'')"
  by (simp_all add: isWS_def)



subsection \<open>Arrays\<close>













subsection \<open>Every parser consumes input\<close>

lemma length_skipWS: "length (skipWS s) \<le> length s"
  by (simp add: skipWS_def length_dropWhile_le)

lemma skipWS_Cons_shorter: "skipWS s = c # cs \<Longrightarrow> length cs < length s"
  using length_skipWS [of s] by simp

lemma parse_chars_shorter: "parse_chars s = Some (x, r) \<Longrightarrow> length r < length s"
proof (induction s arbitrary: x r rule: parse_chars.induct)
  case 1
  then show ?case by simp
next
  case (2 c cs)
  show ?case
  proof (cases "c = CHR 0x22")
    case True
    with "2.prems" show ?thesis by simp
  next
    case quote: False
    show ?thesis
    proof (cases "c = CHR 0x5C")
      case False
      from quote False "2.prems" have n32: "\<not> (of_char c :: nat) < 32"
        by (auto split: if_splits)
      with quote False "2.prems" obtain x' where "parse_chars cs = Some (x', r)"
        by (auto split: option.splits)
      with quote False n32 "2.IH"(3) have "length r < length cs"
        by blast
      then show ?thesis by simp
    next
      case True
      with quote "2.prems" obtain e es where cs: "cs = e # es"
        by (cases cs) auto
      show ?thesis
      proof (cases "e = CHR ''u''")
        case False
        with quote True cs "2.prems" obtain b x' where "unescape e = Some b"
          and "parse_chars es = Some (x', r)"
          by (auto split: option.splits)
        with quote True cs False "2.IH"(2) have "length r < length es"
          by blast
        with cs show ?thesis by simp
      next
        case u: True
        with quote True cs "2.prems" obtain h1 h2 h3 h4 rest n x'
          where es: "es = h1 # h2 # h3 # h4 # rest" and "hex4 h1 h2 h3 h4 = Some n"
            and "parse_chars rest = Some (x', r)"
          by (auto split: list.splits option.splits)
        with quote True cs u "2.IH"(1) have "length r < length rest"
          by blast
        with cs es show ?thesis by simp
      qed
    qed
  qed
qed

lemma parse_fraction_le: "parse_fraction s = Some (x, r) \<Longrightarrow> length r \<le> length s"
  by (cases s)
     (auto simp: parse_fraction_def Let_def length_dropWhile_le le_SucI split: if_splits)

lemma parse_exponent_le: "parse_exponent s = Some (x, r) \<Longrightarrow> length r \<le> length s"
proof (cases s)
  case Nil
  assume "parse_exponent s = Some (x, r)"
  with Nil show ?thesis by (simp add: parse_exponent_def)
next
  case (Cons c cs)
  assume p: "parse_exponent s = Some (x, r)"
  show ?thesis
  proof (cases "c = CHR ''e'' \<or> c = CHR ''E''")
    case False
    with p Cons show ?thesis by (simp add: parse_exponent_def)
  next
    case True
    have "length (dropWhile isDigit (tl cs)) \<le> length cs"
      using length_dropWhile_le [of isDigit "tl cs"] by simp
    moreover have "length (dropWhile isDigit cs) \<le> length cs"
      by (rule length_dropWhile_le)
    ultimately show ?thesis
      using p Cons True
      by (auto simp: parse_exponent_def Let_def split: if_splits)
  qed
qed

lemma int_part_prefix: "length (int_part s) \<le> length s"
  by (cases s) (simp_all add: int_part_def length_takeWhile_le le_SucI)

lemma parse_number_shorter:
  assumes "parse_number s = Some (x, r)"
  shows "length r < length s"
proof -
  define neg where "neg = (case s of [] \<Rightarrow> False | c # _ \<Rightarrow> c = CHR ''-'')"
  define s1 where "s1 = (if neg then tl s else s)"
  define ip where "ip = int_part s1"
  from assms have ip: "ip \<noteq> []"
    unfolding parse_number_def Let_def neg_def [symmetric] s1_def [symmetric] ip_def [symmetric]
    by (auto split: if_splits)
  with assms obtain fr s3 ex where fr: "parse_fraction (drop (length ip) s1) = Some (fr, s3)"
    and ex: "parse_exponent s3 = Some (ex, r)"
    unfolding parse_number_def Let_def neg_def [symmetric] s1_def [symmetric] ip_def [symmetric]
    by (auto split: if_splits option.splits)
  have "length s1 \<le> length s" by (simp add: s1_def)
  moreover have "length ip \<le> length s1" unfolding ip_def by (rule int_part_prefix)
  moreover have "0 < length ip" using ip by simp
  moreover have "length s3 \<le> length s1 - length ip"
    using parse_fraction_le [OF fr] by simp
  moreover have "length r \<le> length s3" using ex by (rule parse_exponent_le)
  ultimately show ?thesis by arith
qed

lemma parse_elements_cases:
  assumes "parse_elements s = Some (vs, r)"
  obtains v r0 c cs where "parse_value s = Some (v, r0)" and "\<not> length s \<le> length r0"
    and "skipWS r0 = c # cs"
    and "(c = CHR '','' \<and> (\<exists>vs'. parse_elements cs = Some (vs', r)))
         \<or> (c \<noteq> CHR '','' \<and> r = cs)"
  using assms
  by (subst (asm) parse_elements.simps)
     (auto split: option.splits list.splits if_splits prod.splits)

lemma parse_elements_shorter: "parse_elements s = Some (vs, r) \<Longrightarrow> length r < length s"
proof -
  have "\<forall>vs r. parse_elements s = Some (vs, r) \<longrightarrow> length r < length s"
  proof (rule parse_value_parse_elements_parse_members.induct(2)
      [where P = "\<lambda>_. True" and R = "\<lambda>_. True"
         and Q = "\<lambda>s. \<forall>vs r. parse_elements s = Some (vs, r) \<longrightarrow> length r < length s"],
      goal_cases)
    case (1 s)
    show ?case by simp
  next
    case (2 s)
    show ?case
    proof (intro allI impI)
      fix vs r
      assume "parse_elements s = Some (vs, r)"
      then obtain v r0 c cs where pv: "parse_value s = Some (v, r0)"
        and g: "\<not> length s \<le> length r0" and sk: "skipWS r0 = c # cs"
        and br: "(c = CHR '','' \<and> (\<exists>vs'. parse_elements cs = Some (vs', r)))
                 \<or> (c \<noteq> CHR '','' \<and> r = cs)"
        by (rule parse_elements_cases)
      from sk have cs: "length cs < length r0" by (rule skipWS_Cons_shorter)
      from br show "length r < length s"
      proof
        assume "c = CHR '','' \<and> (\<exists>vs'. parse_elements cs = Some (vs', r))"
        then obtain vs' where c: "c = CHR '',''" and pe: "parse_elements cs = Some (vs', r)"
          by blast
        from "2"(2) [OF pv refl g sk c] pe have "length r < length cs" by blast
        with cs g show ?thesis by simp
      next
        assume "c \<noteq> CHR '','' \<and> r = cs"
        with cs g show ?thesis by simp
      qed
    qed
  next
    case (3 s)
    show ?case by simp
  qed
  then show "parse_elements s = Some (vs, r) \<Longrightarrow> length r < length s" by blast
qed

lemma parse_members_cases:
  assumes "parse_members s = Some (kvs, r)"
  obtains q cs k r0 r1 v r2 c r3 where "skipWS s = q # cs" and "\<not> q \<noteq> CHR 0x22"
    and "parse_chars cs = Some (k, r0)" and "skipWS r0 = CHR '':'' # r1"
    and "\<not> (CHR '':'' \<noteq> CHR '':'' \<or> length s \<le> length r1)"
    and "parse_value r1 = Some (v, r2)" and "\<not> length r1 \<le> length r2"
    and "skipWS r2 = c # r3"
    and "(c = CHR '','' \<and> (\<exists>kvs'. parse_members r3 = Some (kvs', r)))
         \<or> (c \<noteq> CHR '','' \<and> r = r3)"
  using assms
  by (subst (asm) parse_members.simps)
     (auto split: option.splits list.splits if_splits prod.splits)

lemma parse_members_shorter: "parse_members s = Some (kvs, r) \<Longrightarrow> length r < length s"
proof -
  have "\<forall>kvs r. parse_members s = Some (kvs, r) \<longrightarrow> length r < length s"
  proof (rule parse_value_parse_elements_parse_members.induct(3)
      [where P = "\<lambda>_. True" and Q = "\<lambda>_. True"
         and R = "\<lambda>s. \<forall>kvs r. parse_members s = Some (kvs, r) \<longrightarrow> length r < length s"],
      goal_cases)
    case (1 s)
    show ?case by simp
  next
    case (2 s)
    show ?case by simp
  next
    case (3 s)
    show ?case
    proof (intro allI impI)
      fix kvs r
      assume "parse_members s = Some (kvs, r)"
      then obtain q cs k r0 r1 v r2 c r3 where sk: "skipWS s = q # cs" and q: "\<not> q \<noteq> CHR 0x22"
        and pc: "parse_chars cs = Some (k, r0)" and sk1: "skipWS r0 = CHR '':'' # r1"
        and g1: "\<not> (CHR '':'' \<noteq> CHR '':'' \<or> length s \<le> length r1)"
        and pv: "parse_value r1 = Some (v, r2)" and g2: "\<not> length r1 \<le> length r2"
        and sk2: "skipWS r2 = c # r3"
        and br: "(c = CHR '','' \<and> (\<exists>kvs'. parse_members r3 = Some (kvs', r)))
                 \<or> (c \<noteq> CHR '','' \<and> r = r3)"
        by (rule parse_members_cases)
      from sk2 have r3: "length r3 < length r2" by (rule skipWS_Cons_shorter)
      from br show "length r < length s"
      proof
        assume "c = CHR '','' \<and> (\<exists>kvs'. parse_members r3 = Some (kvs', r))"
        then obtain kvs' where c: "c = CHR '',''" and pm: "parse_members r3 = Some (kvs', r)"
          by blast
        from "3"(2) [OF sk q pc refl sk1 g1 pv refl g2 sk2 c] pm have "length r < length r3"
          by blast
        with r3 g1 g2 show ?thesis by simp
      next
        assume "c \<noteq> CHR '','' \<and> r = r3"
        with r3 g1 g2 show ?thesis by simp
      qed
    qed
  qed
  then show "parse_members s = Some (kvs, r) \<Longrightarrow> length r < length s" by blast
qed

text \<open>
  So the tests on lengths in \<open>parse_elements\<close> and \<open>parse_members\<close> never reject
  a text: the rest that a parser returns is always shorter than its input.
\<close>

lemma parse_value_shorter:
  assumes "parse_value s = Some (v, r)"
  shows "length r < length s"
proof -
  from assms obtain c cs where sk: "skipWS s = c # cs"
    by (subst (asm) parse_value.simps) (auto split: list.splits)
  then have cs: "length cs < length s" by (rule skipWS_Cons_shorter)
  have le: "length (c # cs) \<le> length s" using length_skipWS [of s] sk by simp
  consider (arr) "c = CHR ''[''" | (obj) "c \<noteq> CHR ''[''" "c = CHR ''{''"
    | (str) "c \<noteq> CHR ''[''" "c \<noteq> CHR ''{''" "c = CHR 0x22"
    | (other) "c \<noteq> CHR ''[''" "c \<noteq> CHR ''{''" "c \<noteq> CHR 0x22"
    by blast
  then show ?thesis
  proof cases
    case arr
    with assms sk obtain d ds where sk': "skipWS cs = d # ds"
      by (subst (asm) parse_value.simps) (auto split: list.splits)
    then have ds: "length ds < length cs" by (rule skipWS_Cons_shorter)
    have le': "length (d # ds) \<le> length cs" using length_skipWS [of cs] sk' by simp
    from assms sk arr sk' have "r = ds \<or> (\<exists>vs. parse_elements (d # ds) = Some (vs, r))"
      by (subst (asm) parse_value.simps) (auto split: if_splits option.splits)
    then show ?thesis
    proof
      assume "r = ds"
      with ds cs show ?thesis by simp
    next
      assume "\<exists>vs. parse_elements (d # ds) = Some (vs, r)"
      then obtain vs where "parse_elements (d # ds) = Some (vs, r)" by blast
      then have "length r < length (d # ds)" by (rule parse_elements_shorter)
      with le' cs show ?thesis by simp
    qed
  next
    case obj
    with assms sk obtain d ds where sk': "skipWS cs = d # ds"
      by (subst (asm) parse_value.simps) (auto split: list.splits)
    then have ds: "length ds < length cs" by (rule skipWS_Cons_shorter)
    have le': "length (d # ds) \<le> length cs" using length_skipWS [of cs] sk' by simp
    from assms sk obj sk' have "r = ds \<or> (\<exists>kvs. parse_members (d # ds) = Some (kvs, r))"
      by (subst (asm) parse_value.simps) (auto split: if_splits option.splits)
    then show ?thesis
    proof
      assume "r = ds"
      with ds cs show ?thesis by simp
    next
      assume "\<exists>kvs. parse_members (d # ds) = Some (kvs, r)"
      then obtain kvs where "parse_members (d # ds) = Some (kvs, r)" by blast
      then have "length r < length (d # ds)" by (rule parse_members_shorter)
      with le' cs show ?thesis by simp
    qed
  next
    case str
    with assms sk obtain x where "parse_chars cs = Some (x, r)"
      by (subst (asm) parse_value.simps) (auto split: option.splits)
    then have "length r < length cs" by (rule parse_chars_shorter)
    with cs show ?thesis by simp
  next
    case other
    with assms sk have "r = drop 4 (c # cs) \<or> r = drop 5 (c # cs)
        \<or> (\<exists>x. parse_number (c # cs) = Some (x, r))"
      by (subst (asm) parse_value.simps) (auto split: if_splits option.splits)
    then show ?thesis
    proof (elim disjE exE)
      assume "r = drop 4 (c # cs)"
      with le show ?thesis by simp
    next
      assume "r = drop 5 (c # cs)"
      with le show ?thesis by simp
    next
      fix x
      assume "parse_number (c # cs) = Some (x, r)"
      then have "length r < length (c # cs)" by (rule parse_number_shorter)
      with le show ?thesis by simp
    qed
  qed
qed

subsection \<open>The value read back as an inventory\<close>






end
